theory Spec2Isabelle
  imports Complex_Main
begin

section \<open>Arrays and Python values\<close>

text \<open>
  A two-dimensional numpy array of floats is a shape and its rows. Floats are taken as
  exact reals throughout: the development states what the formulas of the code compute,
  not their rounding. Every operation below builds its result with \<open>mk\<close> and reads
  its arguments with \<open>ent\<close> inside their shape only.
\<close>

record 'a ndarray =
  shape0 :: nat
  shape1 :: nat
  rows :: "'a list list"

definition mk :: "nat \<Rightarrow> nat \<Rightarrow> (nat \<Rightarrow> nat \<Rightarrow> 'a) \<Rightarrow> 'a ndarray" where
  "mk n m f = \<lparr>shape0 = n, shape1 = m, rows = map (\<lambda>i. map (f i) [0..<m]) [0..<n]\<rparr>"

definition ent :: "'a ndarray \<Rightarrow> nat \<Rightarrow> nat \<Rightarrow> 'a" where
  "ent A i j = rows A ! i ! j"

text \<open>
  The exceptions the code can raise; a ValueError carries its message. \<open>NanValue\<close> is not
  an exception: it marks the point where a float operation of the code leaves the reals
  (a quotient by zero, the square root of a negative number). numpy goes on with nan there;
  this development does not follow the run any further.
\<close>

datatype py_error =
  AttributeError | TypeError | ValueError string | AssertionError | IndexError | NanValue

text \<open>\<open>A.T\<close>\<close>

definition T :: "'a ndarray \<Rightarrow> 'a ndarray" where
  "T A = mk (shape1 A) (shape0 A) (\<lambda>i j. ent A j i)"

text \<open>
  \<open>A.dot(B)\<close> on two-dimensional arrays: numpy raises ValueError when the inner
  dimensions differ.
\<close>

definition dot :: "real ndarray \<Rightarrow> real ndarray \<Rightarrow> py_error + real ndarray" where
  "dot A B =
     (if shape1 A \<noteq> shape0 B then Inl (ValueError ''shapes not aligned'')
      else Inr (mk (shape0 A) (shape1 B) (\<lambda>i j. \<Sum>k<shape1 A. ent A i k * ent B k j)))"

text \<open>An elementwise function of an array (\<open>np.tanh(A)\<close>, \<open>A ** p\<close>, \<open>b * A + c\<close>).\<close>

definition elementwise :: "('a \<Rightarrow> 'b) \<Rightarrow> 'a ndarray \<Rightarrow> 'b ndarray" where
  "elementwise g A = mk (shape0 A) (shape1 A) (\<lambda>i j. g (ent A i j))"

text \<open>
  The kernel functions dispatch on the run-time type of \<open>x\<close>: a Python \<open>int\<close>
  (\<open>isinstance(x, int)\<close>), an object without a \<open>shape\<close> attribute (a Python \<open>int\<close>
  or \<open>float\<close>), a scipy sparse matrix (\<open>sp.isspmatrix(x)\<close>), or a dense array. The two
  data points of a call are of the same kind, so a call is one of three pairs; a sparse
  matrix is given by the array \<open>todense()\<close> returns for it.
\<close>

datatype scalar = PyInt int | PyFloat real

datatype kargs =
    ScalarPair scalar scalar
  | DensePair "real ndarray" "real ndarray"
  | SparsePair "real ndarray" "real ndarray"

datatype kval = Scalar scalar | Array "real ndarray"

fun as_real :: "scalar \<Rightarrow> real" where
  "as_real (PyInt a) = of_int a"
| "as_real (PyFloat a) = a"

text \<open>Python's \<open>x * y\<close> and \<open>x ** p\<close> (\<open>p\<close> a natural number) on numbers.\<close>

fun py_times :: "scalar \<Rightarrow> scalar \<Rightarrow> scalar" where
  "py_times (PyInt a) (PyInt b) = PyInt (a * b)"
| "py_times x y = PyFloat (as_real x * as_real y)"

fun py_pow :: "scalar \<Rightarrow> nat \<Rightarrow> scalar" where
  "py_pow (PyInt a) p = PyInt (a ^ p)"
| "py_pow (PyFloat a) p = PyFloat (a ^ p)"

fun array_result :: "py_error + real ndarray \<Rightarrow> py_error + kval" where
  "array_result (Inl e) = Inl e"
| "array_result (Inr A) = Inr (Array A)"

section \<open>Kernel functions (mklaren/kernel/kernel.py)\<close>

text \<open>
  \<^verbatim>\<open>
  def linear_kernel(x, y):
      if isinstance(x, int):
          return x * y
      if sp.isspmatrix(x):
          return np.array(x.dot(y.T).todense())
      else:
          return x.dot(y.T)
  \<close>
  A Python \<open>float\<close> is neither an \<open>int\<close> nor sparse, so it reaches \<open>x.dot\<close>, an
  attribute a \<open>float\<close> does not have.
\<close>

fun linear_kernel :: "kargs \<Rightarrow> py_error + kval" where
  "linear_kernel (ScalarPair (PyInt a) y) = Inr (Scalar (py_times (PyInt a) y))"
| "linear_kernel (ScalarPair (PyFloat a) y) = Inl AttributeError"
| "linear_kernel (SparsePair A B) = array_result (dot A (T B))"
| "linear_kernel (DensePair A B) = array_result (dot A (T B))"

text \<open>
  \<^verbatim>\<open>
  def poly_kernel(x, y, p=2, b=0):
      if sp.isspmatrix(x):
          return np.array(x.dot(y.T).todense())**p
      if not hasattr(x, "shape"):
          return (x * y)**p
      else:
          return x.dot(y.T)**p
  \<close>
  The degree \<open>p\<close> is a natural number here. No branch reads \<open>b\<close>.
\<close>

fun pow_result :: "py_error + real ndarray \<Rightarrow> nat \<Rightarrow> py_error + kval" where
  "pow_result (Inl e) p = Inl e"
| "pow_result (Inr A) p = Inr (Array (elementwise (\<lambda>v. v ^ p) A))"

fun poly_kernel :: "kargs \<Rightarrow> nat \<Rightarrow> real \<Rightarrow> py_error + kval" where
  "poly_kernel (SparsePair A B) p b = pow_result (dot A (T B)) p"
| "poly_kernel (ScalarPair x y) p b = Inr (Scalar (py_pow (py_times x y) p))"
| "poly_kernel (DensePair A B) p b = pow_result (dot A (T B)) p"

text \<open>
  \<^verbatim>\<open>
  def sigmoid_kernel(x, y, b=1, c=0):
      if sp.isspmatrix(x) and sp.isspmatrix(y):
          x = np.array(x.todense())
          y = np.array(y.todense())
      if not hasattr(x, "shape"):
          return np.tanh(b * x * y + c)
      else:
          return np.tanh(b * x.dot(y.T) + c)
  \<close>
  \<open>np.tanh\<close> of a number is a float.
\<close>

fun tanh_result :: "real \<Rightarrow> real \<Rightarrow> py_error + real ndarray \<Rightarrow> py_error + kval" where
  "tanh_result b c (Inl e) = Inl e"
| "tanh_result b c (Inr A) = Inr (Array (elementwise (\<lambda>v. tanh (b * v + c)) A))"

fun sigmoid_kernel :: "kargs \<Rightarrow> real \<Rightarrow> real \<Rightarrow> py_error + kval" where
  "sigmoid_kernel (SparsePair A B) b c = tanh_result b c (dot A (T B))"
| "sigmoid_kernel (ScalarPair x y) b c =
     Inr (Scalar (PyFloat (tanh (b * as_real x * as_real y + c))))"
| "sigmoid_kernel (DensePair A B) b c = tanh_result b c (dot A (T B))"

text \<open>
  Elementwise arithmetic of two arrays follows numpy's broadcasting: along each axis the
  lengths agree or one of them is 1 (that operand is then repeated), and ValueError is
  raised otherwise. A one-dimensional array of length \<open>k\<close> broadcasts against a matrix as
  its shape \<open>(1, k)\<close> does, and is written so.
\<close>

definition bdim :: "nat \<Rightarrow> nat \<Rightarrow> nat option" where
  "bdim a b = (if a = b then Some a else if a = 1 then Some b else if b = 1 then Some a else None)"

definition bidx :: "nat \<Rightarrow> nat \<Rightarrow> nat" where
  "bidx len i = (if len = 1 then 0 else i)"

definition broadcast :: "('a \<Rightarrow> 'b \<Rightarrow> 'c) \<Rightarrow> 'a ndarray \<Rightarrow> 'b ndarray \<Rightarrow> py_error + 'c ndarray" where
  "broadcast g A B =
     (case (bdim (shape0 A) (shape0 B), bdim (shape1 A) (shape1 B)) of
        (Some n, Some m) \<Rightarrow>
          Inr (mk n m (\<lambda>i j. g (ent A (bidx (shape0 A) i) (bidx (shape1 A) j))
                               (ent B (bidx (shape0 B) i) (bidx (shape1 B) j))))
      | _ \<Rightarrow> Inl (ValueError ''operands could not be broadcast together''))"

fun bind_err :: "py_error + 'a \<Rightarrow> ('a \<Rightarrow> py_error + 'b) \<Rightarrow> py_error + 'b" where
  "bind_err (Inl e) f = Inl e"
| "bind_err (Inr a) f = f a"

text \<open>
  \<open>np.ones((n, m))\<close> and \<open>np.eye(n, m)\<close>. The dimensions are Python numbers: numpy takes
  integers, raises ValueError for a negative one, and raises TypeError for a float, which
  it does not take for an integer.
\<close>

definition ones :: "nat \<Rightarrow> nat \<Rightarrow> real ndarray" where
  "ones n m = mk n m (\<lambda>i j. 1)"

definition eye :: "nat \<Rightarrow> nat \<Rightarrow> real ndarray" where
  "eye n m = mk n m (\<lambda>i j. if i = j then 1 else 0)"

fun np_ones :: "scalar \<Rightarrow> scalar \<Rightarrow> py_error + real ndarray" where
  "np_ones (PyInt a) (PyInt b) =
     (if a < 0 \<or> b < 0 then Inl (ValueError ''negative dimensions are not allowed'')
      else Inr (ones (nat a) (nat b)))"
| "np_ones a b = Inl TypeError"

fun np_eye :: "scalar \<Rightarrow> scalar \<Rightarrow> py_error + real ndarray" where
  "np_eye (PyInt a) (PyInt b) =
     (if a < 0 \<or> b < 0 then Inl (ValueError ''negative dimensions are not allowed'')
      else Inr (eye (nat a) (nat b)))"
| "np_eye a b = Inl TypeError"

text \<open>
  \<^verbatim>\<open>
  def center_kernel(K):
      m = float(K.shape[0])
      o = np.ones((m, 1))
      I = np.eye(m, m)
      Ic = (I-o.dot(o.T)/m)
      return Ic.dot(K).dot(Ic)
  \<close>
  \<open>center_with m\<close> is the body of the function below its first line, for a given \<open>m\<close>.
  The function makes \<open>m\<close> a float, so \<open>np.ones((m, 1))\<close> raises TypeError for every \<open>K\<close>.
\<close>

definition center_with :: "scalar \<Rightarrow> real ndarray \<Rightarrow> py_error + real ndarray" where
  "center_with m K =
     bind_err (np_ones m (PyInt 1)) (\<lambda>o1.
     bind_err (np_eye m m) (\<lambda>I.
     bind_err (dot o1 (T o1)) (\<lambda>oo.
     bind_err (broadcast (\<lambda>u v. u - v) I (elementwise (\<lambda>v. v / as_real m) oo)) (\<lambda>Ic.
     bind_err (dot Ic K) (\<lambda>IcK. dot IcK Ic)))))"

definition center_kernel :: "real ndarray \<Rightarrow> py_error + real ndarray" where
  "center_kernel K = center_with (PyFloat (real (shape0 K))) K"

text \<open>
  \<^verbatim>\<open>
  def center_kernel_low_rank(G):
      return G - G.mean(axis=0)
  \<close>
  \<open>G.mean(axis=0)\<close> holds the column means. For a \<open>G\<close> without rows numpy's means are
  nan; the difference then has no rows either and the means are never read.
\<close>

definition mean_axis0 :: "real ndarray \<Rightarrow> real ndarray" where
  "mean_axis0 G = mk 1 (shape1 G) (\<lambda>i j. (\<Sum>l<shape0 G. ent G l j) / real (shape0 G))"

definition center_kernel_low_rank :: "real ndarray \<Rightarrow> py_error + real ndarray" where
  "center_kernel_low_rank G = broadcast (\<lambda>u v. u - v) G (mean_axis0 G)"

text \<open>
  Where a quotient or a square root of the code can leave the reals, its value is a numpy
  float: finite, infinite or nan. Zeros are taken as \<open>+0.0\<close>, so the sign of an infinite
  quotient is that of its numerator.
\<close>

datatype npfloat = Fin real | PInf | NInf | NaN






section \<open>Basic facts about arrays\<close>

lemma shape0_mk [simp]: "shape0 (mk n m f) = n"
  by (simp add: mk_def)

lemma shape1_mk [simp]: "shape1 (mk n m f) = m"
  by (simp add: mk_def)

lemma ent_mk [simp]: "i < n \<Longrightarrow> j < m \<Longrightarrow> ent (mk n m f) i j = f i j"
  by (simp add: mk_def ent_def)

lemma mk_cong: "(\<And>i j. i < n \<Longrightarrow> j < m \<Longrightarrow> f i j = g i j) \<Longrightarrow> mk n m f = mk n m g"
  by (simp add: mk_def)

lemma mk_1_1: "mk (Suc 0) (Suc 0) f = \<lparr>shape0 = 1, shape1 = 1, rows = [[f 0 0]]\<rparr>"
  by (simp add: mk_def)

lemma tanh_real_inj: "tanh (x::real) = tanh y \<Longrightarrow> x = y"
  by (metis artanh_tanh_real)

section \<open>The scalar kernels\<close>

text \<open>What the three branches of each kernel compute, for all arguments.\<close>

lemma poly_kernel_ignores_b: "poly_kernel args p b = poly_kernel args p b'"
  by (cases args) simp_all

lemma linear_kernel_int: "linear_kernel (ScalarPair (PyInt a) (PyInt c)) = Inr (Scalar (PyInt (a * c)))"
  by simp

lemma linear_kernel_int_float:
  "linear_kernel (ScalarPair (PyInt a) (PyFloat c)) = Inr (Scalar (PyFloat (of_int a * c)))"
  by simp

lemma sigmoid_kernel_scalar:
  "sigmoid_kernel (ScalarPair x y) b c = Inr (Scalar (PyFloat (tanh (b * (as_real x * as_real y) + c))))"
  by (simp add: mult.assoc)

text \<open>
  C1. The claim: \<open>sigmoid_kernel(x, y, b, c)\<close> returns \<open>tanh(c * x * y + b)\<close>, so with the
  defaults \<open>b = 1\<close>, \<open>c = 0\<close> it returns \<open>tanh(0 * x * y + 1)\<close>. The code multiplies by
  \<open>b\<close> and adds \<open>c\<close>: at \<open>x = 2\<close>, \<open>y = 1\<close> and the defaults it returns \<open>tanh 2\<close>, which
  is not \<open>tanh(0 * 2 * 1 + 1)\<close>.
\<close>

theorem sigmoid_kernel_swaps_scale_and_bias:
  "sigmoid_kernel (ScalarPair (PyInt 2) (PyInt 1)) 1 0 = Inr (Scalar (PyFloat (tanh 2)))
   \<and> tanh (2::real) \<noteq> tanh (0 * 2 * 1 + 1)"
  using tanh_real_inj [of 2 1] by auto

text \<open>
  C2. The claim: in the dense branch \<open>poly_kernel(x, y, p, b)\<close> returns
  \<open>(b + x.dot(y.T)) ** p\<close>. The dense branch of the code never reads \<open>b\<close>: for the
  \<open>1 \<times> 1\<close> arrays \<open>x = y = [[1]]\<close>, \<open>p = 2\<close> and \<open>b = 1\<close> it returns \<open>[[1]]\<close>, and
  \<open>(1 + 1 * 1) ** 2\<close> is 4.
\<close>

theorem poly_kernel_dense_ignores_bias:
  "poly_kernel (DensePair \<lparr>shape0 = 1, shape1 = 1, rows = [[1]]\<rparr>
                          \<lparr>shape0 = 1, shape1 = 1, rows = [[1]]\<rparr>) 2 1
     = Inr (Array \<lparr>shape0 = 1, shape1 = 1, rows = [[1]]\<rparr>)
   \<and> (1 + 1 * 1) ^ 2 \<noteq> (1::real)"
  by (simp add: dot_def T_def elementwise_def mk_def ent_def)

text \<open>
  C6. The claim: for every pair of scalars, integer or real, \<open>linear_kernel(x, y)\<close> returns
  their product. For the Python floats \<open>x = 2.0\<close>, \<open>y = 3.0\<close> the code raises
  AttributeError instead of returning \<open>6.0\<close>.
\<close>

theorem linear_kernel_float_raises:
  "linear_kernel (ScalarPair (PyFloat 2) (PyFloat 3)) = Inl AttributeError"
  by simp

section \<open>Centering\<close>

text \<open>
  The entries of the centering matrix \<open>I - 11\<^sup>T/n\<close>, and the entries of a matrix product
  as a function of the factors' entries.
\<close>

definition ic :: "nat \<Rightarrow> nat \<Rightarrow> nat \<Rightarrow> real" where
  "ic n i j = (if i = j then 1 else 0) - 1 / real n"

definition mmf :: "nat \<Rightarrow> (nat \<Rightarrow> nat \<Rightarrow> real) \<Rightarrow> (nat \<Rightarrow> nat \<Rightarrow> real) \<Rightarrow> nat \<Rightarrow> nat \<Rightarrow> real" where
  "mmf n f g i j = (\<Sum>k<n. f i k * g k j)"

lemma mmf_cong:
  "(\<And>k. k < n \<Longrightarrow> f i k = f' i k) \<Longrightarrow> (\<And>k. k < n \<Longrightarrow> g k j = g' k j) \<Longrightarrow> mmf n f g i j = mmf n f' g' i j"
  unfolding mmf_def by (rule sum.cong) simp_all

lemma mmf_assoc: "mmf m (mmf n f g) h i j = mmf n f (mmf m g h) i j"
proof -
  have "mmf m (mmf n f g) h i j = (\<Sum>l<m. \<Sum>k<n. f i k * g k l * h l j)"
    by (simp add: mmf_def sum_distrib_right)
  also have "\<dots> = (\<Sum>k<n. \<Sum>l<m. f i k * g k l * h l j)"
    by (rule sum.swap)
  also have "\<dots> = mmf n f (mmf m g h) i j"
    by (simp add: mmf_def sum_distrib_left mult.assoc)
  finally show ?thesis .
qed

lemma sum_ic_left: "i < n \<Longrightarrow> (\<Sum>k<n. ic n i k * g k) = g i - (\<Sum>k<n. g k) / real n"
proof -
  assume i: "i < n"
  have "(\<Sum>k<n. ic n i k * g k) = (\<Sum>k<n. (if i = k then g k else 0) - g k / real n)"
    by (rule sum.cong) (simp_all add: ic_def algebra_simps)
  also have "\<dots> = (\<Sum>k<n. if i = k then g k else 0) - (\<Sum>k<n. g k / real n)"
    by (simp add: sum_subtractf)
  also have "(\<Sum>k<n. if i = k then g k else 0) = g i"
    using i by (simp add: sum.delta')
  also have "(\<Sum>k<n. g k / real n) = (\<Sum>k<n. g k) / real n"
    by (simp add: sum_divide_distrib)
  finally show ?thesis .
qed

lemma ic_sym: "ic n i j = ic n j i"
  by (simp add: ic_def)

lemma sum_ic: "j < n \<Longrightarrow> (\<Sum>k<n. ic n k j) = 0"
proof -
  assume j: "j < n"
  have "(\<Sum>k<n. ic n k j) = (\<Sum>k<n. ic n j k * 1)"
    by (simp add: ic_sym)
  also have "\<dots> = 1 - (\<Sum>k<n. 1) / real n"
    using j by (rule sum_ic_left)
  also have "\<dots> = 0" using j by simp
  finally show ?thesis .
qed

lemma ic_idem: "i < n \<Longrightarrow> j < n \<Longrightarrow> mmf n (ic n) (ic n) i j = ic n i j"
  unfolding mmf_def by (simp add: sum_ic_left sum_ic)

lemma center_with_int_square:
  assumes "shape1 K = shape0 K"
  shows "center_with (PyInt (int (shape0 K))) K
    = Inr (mk (shape0 K) (shape0 K) (mmf (shape0 K) (mmf (shape0 K) (ic (shape0 K)) (ent K)) (ic (shape0 K))))"
proof -
  let ?n = "shape0 K"
  have e0: "np_ones (PyInt (int ?n)) (PyInt 1) = Inr (ones ?n 1)" by simp
  have e1: "np_eye (PyInt (int ?n)) (PyInt (int ?n)) = Inr (eye ?n ?n)" by simp
  have ar: "as_real (PyInt (int ?n)) = real ?n" by simp
  have Ic: "broadcast (\<lambda>u v. u - v) (eye ?n ?n) (elementwise (\<lambda>v. v / real ?n) (mk ?n ?n (\<lambda>i j. \<Sum>k<1. ent (ones ?n 1) i k * ent (T (ones ?n 1)) k j)))
     = Inr (mk ?n ?n (ic ?n))"
    by (auto simp add: broadcast_def bdim_def bidx_def eye_def elementwise_def ones_def T_def ic_def intro!: mk_cong)
  have d1: "dot (mk ?n ?n (ic ?n)) K = Inr (mk ?n ?n (mmf ?n (ic ?n) (ent K)))"
    using assms by (auto simp add: dot_def mmf_def intro!: mk_cong sum.cong)
  have d2: "dot (mk ?n ?n (mmf ?n (ic ?n) (ent K))) (mk ?n ?n (ic ?n)) = Inr (mk ?n ?n (mmf ?n (mmf ?n (ic ?n) (ent K)) (ic ?n)))"
    by (auto simp add: dot_def mmf_def [of _ _ "ic ?n"] intro!: mk_cong sum.cong)
  have d0: "dot (ones ?n 1) (T (ones ?n 1)) = Inr (mk ?n ?n (\<lambda>i j. \<Sum>k<1. ent (ones ?n 1) i k * ent (T (ones ?n 1)) k j))"
    by (simp add: dot_def ones_def T_def)
  show ?thesis
    unfolding center_with_def by (simp only: e0 e1 ar d0 bind_err.simps Ic d1 d2)
qed

lemma ic_left_idem: "i < n \<Longrightarrow> mmf n (ic n) (mmf n (ic n) g) i j = mmf n (ic n) g i j"
proof -
  assume i: "i < n"
  have "mmf n (ic n) (mmf n (ic n) g) i j = mmf n (mmf n (ic n) (ic n)) g i j"
    by (simp add: mmf_assoc)
  also have "\<dots> = mmf n (ic n) g i j"
    by (rule mmf_cong) (simp_all add: ic_idem i)
  finally show ?thesis .
qed

lemma ic_right_idem: "j < n \<Longrightarrow> mmf n (mmf n g (ic n)) (ic n) i j = mmf n g (ic n) i j"
proof -
  assume j: "j < n"
  have "mmf n (mmf n g (ic n)) (ic n) i j = mmf n g (mmf n (ic n) (ic n)) i j"
    by (simp add: mmf_assoc)
  also have "\<dots> = mmf n g (ic n) i j"
    by (rule mmf_cong) (simp_all add: ic_idem j)
  finally show ?thesis .
qed

lemma center_idem_fun:
  assumes i: "i < n" and j: "j < n"
  shows "mmf n (mmf n (ic n) (mmf n (mmf n (ic n) g) (ic n))) (ic n) i j = mmf n (mmf n (ic n) g) (ic n) i j"
proof -
  have "mmf n (mmf n (ic n) (mmf n (mmf n (ic n) g) (ic n))) (ic n) i j
      = mmf n (mmf n (mmf n (ic n) (mmf n (ic n) g)) (ic n)) (ic n) i j"
    by (rule mmf_cong) (simp_all add: mmf_assoc)
  also have "\<dots> = mmf n (mmf n (ic n) (mmf n (ic n) g)) (ic n) i j"
    using j by (rule ic_right_idem)
  also have "\<dots> = mmf n (mmf n (ic n) g) (ic n) i j"
    by (rule mmf_cong) (simp_all add: ic_left_idem i)
  finally show ?thesis .
qed

lemma dot_T_self: "dot G (T G) = Inr (mk (shape0 G) (shape0 G) (mmf (shape1 G) (ent G) (\<lambda>k l. ent G l k)))"
  by (auto simp add: dot_def T_def mmf_def intro!: mk_cong sum.cong)

lemma center_kernel_low_rank_eq:
  "center_kernel_low_rank G = Inr (mk (shape0 G) (shape1 G) (mmf (shape0 G) (ic (shape0 G)) (ent G)))"
proof -
  have b0: "bdim (shape0 G) 1 = Some (shape0 G)" by (simp add: bdim_def)
  have "center_kernel_low_rank G = Inr (mk (shape0 G) (shape1 G)
      (\<lambda>i j. ent G (bidx (shape0 G) i) (bidx (shape1 G) j) - ent (mean_axis0 G) (bidx 1 i) (bidx (shape1 G) j)))"
    by (simp add: center_kernel_low_rank_def broadcast_def b0 mean_axis0_def bdim_def)
  also have "mk (shape0 G) (shape1 G)
      (\<lambda>i j. ent G (bidx (shape0 G) i) (bidx (shape1 G) j) - ent (mean_axis0 G) (bidx 1 i) (bidx (shape1 G) j))
     = mk (shape0 G) (shape1 G) (mmf (shape0 G) (ic (shape0 G)) (ent G))"
  proof (rule mk_cong)
    fix i j assume i: "i < shape0 G" and j: "j < shape1 G"
    have bi: "bidx (shape0 G) i = i" using i by (auto simp add: bidx_def)
    have bj: "bidx (shape1 G) j = j" using j by (auto simp add: bidx_def)
    show "ent G (bidx (shape0 G) i) (bidx (shape1 G) j) - ent (mean_axis0 G) (bidx 1 i) (bidx (shape1 G) j)
        = mmf (shape0 G) (ic (shape0 G)) (ent G) i j"
    proof -
      have b1: "bidx (Suc 0) i = 0" by (simp add: bidx_def)
      have me: "ent (mean_axis0 G) 0 j = (\<Sum>l<shape0 G. ent G l j) / real (shape0 G)"
        using j by (simp add: mean_axis0_def)
      show ?thesis
        using i by (simp add: bi bj b1 me mmf_def sum_ic_left)
    qed
  qed
  finally show ?thesis .
qed

lemma center_low_rank_fun:
  assumes i: "i < n" and j: "j < n"
  shows "mmf n (mmf n (ic n) (mmf m g (\<lambda>k l. g l k))) (ic n) i j
       = mmf m (mmf n (ic n) g) (\<lambda>k l. mmf n (ic n) g l k) i j"
proof -
  have "mmf n (mmf n (ic n) (mmf m g (\<lambda>k l. g l k))) (ic n) i j
      = mmf n (mmf m (mmf n (ic n) g) (\<lambda>k l. g l k)) (ic n) i j"
    by (rule mmf_cong) (simp_all add: mmf_assoc)
  also have "\<dots> = mmf m (mmf n (ic n) g) (mmf n (\<lambda>k l. g l k) (ic n)) i j"
    by (simp add: mmf_assoc)
  also have "\<dots> = mmf m (mmf n (ic n) g) (\<lambda>k l. mmf n (ic n) g l k) i j"
    by (rule mmf_cong) (simp_all add: mmf_def ic_sym [of n j] mult.commute)
  finally show ?thesis .
qed

text \<open>
  \<open>center_kernel\<close> never reaches its matrix products.
\<close>

lemma center_kernel_always_raises: "center_kernel K = Inl TypeError"
  by (simp add: center_kernel_def center_with_def)

text \<open>
  With \<open>m\<close> left the integer \<open>K.shape[0]\<close>, the body of \<open>center_kernel\<close> is the double
  centering of its docstring, \<open>(I - 11\<^sup>T/n) K (I - 11\<^sup>T/n)\<close>. It is idempotent on square
  arrays, and on \<open>G.dot(G.T)\<close> it agrees with the product of \<open>center_kernel_low_rank(G)\<close>
  and its transpose.
\<close>

lemma center_with_int_idempotent:
  assumes "shape1 K = shape0 K"
  shows "\<exists>C. center_with (PyInt (int (shape0 K))) K = Inr C \<and> shape0 C = shape0 K
    \<and> center_with (PyInt (int (shape0 C))) C = Inr C"
proof -
  let ?n = "shape0 K"
  let ?c = "mmf ?n (mmf ?n (ic ?n) (ent K)) (ic ?n)"
  let ?C = "mk ?n ?n ?c"
  have 1: "center_with (PyInt (int ?n)) K = Inr ?C" using assms by (rule center_with_int_square)
  have "center_with (PyInt (int (shape0 ?C))) ?C = Inr (mk ?n ?n (mmf ?n (mmf ?n (ic ?n) (ent ?C)) (ic ?n)))"
    using center_with_int_square [of ?C] by simp
  also have "mk ?n ?n (mmf ?n (mmf ?n (ic ?n) (ent ?C)) (ic ?n)) = ?C"
  proof (rule mk_cong)
    fix i j assume i: "i < ?n" and j: "j < ?n"
    have "mmf ?n (mmf ?n (ic ?n) (ent ?C)) (ic ?n) i j = mmf ?n (mmf ?n (ic ?n) ?c) (ic ?n) i j"
    proof (rule mmf_cong)
      fix k assume k: "k < ?n"
      show "mmf ?n (ic ?n) (ent ?C) i k = mmf ?n (ic ?n) ?c i k"
        by (rule mmf_cong) (simp_all add: k)
    qed simp
    also have "\<dots> = ?c i j"
      using i j by (rule center_idem_fun)
    finally show "mmf ?n (mmf ?n (ic ?n) (ent ?C)) (ic ?n) i j = ?c i j" .
  qed
  finally have 2: "center_with (PyInt (int (shape0 ?C))) ?C = Inr ?C" .
  have 3: "shape0 ?C = ?n" by simp
  from 1 2 3 show ?thesis by blast
qed

lemma center_with_int_example:
  "center_with (PyInt 2) \<lparr>shape0 = 2, shape1 = 2, rows = [[2, 0], [0, 0]]\<rparr>
     = Inr \<lparr>shape0 = 2, shape1 = 2, rows = [[1/2, - 1/2], [- 1/2, 1/2]]\<rparr>"
  by code_simp

lemma center_with_int_low_rank:
  "\<exists>C. bind_err (dot G (T G)) (center_with (PyInt (int (shape0 G)))) = Inr C
     \<and> bind_err (center_kernel_low_rank G) (\<lambda>Gc. dot Gc (T Gc)) = Inr C"
proof -
  let ?n = "shape0 G" and ?m = "shape1 G"
  let ?gg = "mmf ?m (ent G) (\<lambda>k l. ent G l k)"
  let ?gc = "mmf ?n (ic ?n) (ent G)"
  let ?C = "mk ?n ?n (mmf ?m (ent (mk ?n ?m ?gc)) (\<lambda>k l. ent (mk ?n ?m ?gc) l k))"
  have "bind_err (dot G (T G)) (center_with (PyInt (int ?n))) = center_with (PyInt (int ?n)) (mk ?n ?n ?gg)"
    by (simp add: dot_T_self)
  also have "\<dots> = Inr (mk ?n ?n (mmf ?n (mmf ?n (ic ?n) (ent (mk ?n ?n ?gg))) (ic ?n)))"
    using center_with_int_square [of "mk ?n ?n ?gg"] by simp
  also have "mk ?n ?n (mmf ?n (mmf ?n (ic ?n) (ent (mk ?n ?n ?gg))) (ic ?n)) = ?C"
  proof (rule mk_cong)
    fix i j assume i: "i < ?n" and j: "j < ?n"
    have "mmf ?n (mmf ?n (ic ?n) (ent (mk ?n ?n ?gg))) (ic ?n) i j = mmf ?n (mmf ?n (ic ?n) ?gg) (ic ?n) i j"
    proof (rule mmf_cong)
      fix k assume k: "k < ?n"
      show "mmf ?n (ic ?n) (ent (mk ?n ?n ?gg)) i k = mmf ?n (ic ?n) ?gg i k"
        by (rule mmf_cong) (simp_all add: k)
    qed simp
    also have "\<dots> = mmf ?m ?gc (\<lambda>k l. ?gc l k) i j"
      using i j by (rule center_low_rank_fun)
    also have "\<dots> = mmf ?m (ent (mk ?n ?m ?gc)) (\<lambda>k l. ent (mk ?n ?m ?gc) l k) i j"
      by (rule mmf_cong) (simp_all add: i j)
    finally show "mmf ?n (mmf ?n (ic ?n) (ent (mk ?n ?n ?gg))) (ic ?n) i j
       = mmf ?m (ent (mk ?n ?m ?gc)) (\<lambda>k l. ent (mk ?n ?m ?gc) l k) i j" .
  qed
  finally have l: "bind_err (dot G (T G)) (center_with (PyInt (int ?n))) = Inr ?C" .
  have r: "bind_err (center_kernel_low_rank G) (\<lambda>Gc. dot Gc (T Gc)) = Inr ?C"
    using dot_T_self [of "mk ?n ?m ?gc"] by (simp add: center_kernel_low_rank_eq)
  from l r show ?thesis by blast
qed

text \<open>
  C7. The claim: \<open>center_kernel\<close> is idempotent, \<open>center_kernel(center_kernel(K))\<close> equals
  \<open>center_kernel(K)\<close> for every square \<open>K\<close>. The code returns no matrix to compare: for
  \<open>K = [[2, 0], [0, 0]]\<close>, as for every \<open>K\<close>, \<open>m\<close> is the float \<open>2.0\<close> and
  \<open>np.ones((m, 1))\<close> raises TypeError.
\<close>

theorem center_kernel_raises_type_error:
  "center_kernel \<lparr>shape0 = 2, shape1 = 2, rows = [[2, 0], [0, 0]]\<rparr> = Inl TypeError"
  by (simp add: center_kernel_def center_with_def)

text \<open>
  C8. The claim: for every feature array \<open>G\<close>, \<open>center_kernel(G.dot(G.T))\<close> equals the
  product of \<open>center_kernel_low_rank(G)\<close> and its transpose. For the column \<open>G = [[1], [3]]\<close>
  the right side is \<open>[[1, -1], [-1, 1]]\<close>, and the left side raises TypeError in
  \<open>center_kernel\<close>.
\<close>

theorem center_kernel_of_gram_raises:
  "bind_err (dot \<lparr>shape0 = 2, shape1 = 1, rows = [[1], [3]]\<rparr>
               (T \<lparr>shape0 = 2, shape1 = 1, rows = [[1], [3]]\<rparr>)) center_kernel
     = Inl TypeError
   \<and> bind_err (center_kernel_low_rank \<lparr>shape0 = 2, shape1 = 1, rows = [[1], [3]]\<rparr>)
        (\<lambda>Gc. dot Gc (T Gc))
     = Inr \<lparr>shape0 = 2, shape1 = 2, rows = [[1, - 1], [- 1, 1]]\<rparr>"
proof -
  let ?G = "\<lparr>shape0 = 2, shape1 = 1, rows = [[1], [3::real]]\<rparr>"
  have l: "bind_err (dot ?G (T ?G)) center_kernel = Inl TypeError"
    by (simp add: dot_T_self center_kernel_def center_with_def)
  have r: "bind_err (center_kernel_low_rank ?G) (\<lambda>Gc. dot Gc (T Gc))
      = Inr \<lparr>shape0 = 2, shape1 = 2, rows = [[1, - 1], [- 1, 1]]\<rparr>"
    by code_simp
  from l r show ?thesis by simp
qed

section \<open>Row normalisation\<close>


















section \<open>The group LARS path (examples/lars/lars\_mkl.py)\<close>

text \<open>
  One-dimensional arrays are lists. \<open>y.ravel()\<close>, \<open>numpy.linalg.norm\<close> of a vector,
  \<open>np.sum(P == k)\<close>, the columns a boolean mask \<open>P == k\<close> selects, \<open>Q[:, cols].T.dot(r)\<close> and
  \<open>Q[:, :t].dot(v)\<close>:
\<close>

definition ravel :: "real ndarray \<Rightarrow> real list" where
  "ravel y = concat (map (\<lambda>i. map (ent y i) [0..<shape1 y]) [0..<shape0 y])"

definition norm_vec :: "real list \<Rightarrow> real" where
  "norm_vec v = sqrt (\<Sum>x\<leftarrow>v. x\<^sup>2)"

definition count_eq :: "int list \<Rightarrow> int \<Rightarrow> nat" where
  "count_eq P k = length (filter (\<lambda>p. p = k) P)"

definition mask_cols :: "int list \<Rightarrow> int \<Rightarrow> nat list" where
  "mask_cols P k = filter (\<lambda>c. P ! c = k) [0..<length P]"

definition cols_T_dot :: "real ndarray \<Rightarrow> nat list \<Rightarrow> real list \<Rightarrow> real list" where
  "cols_T_dot Q cols v = map (\<lambda>c. \<Sum>i<shape0 Q. ent Q i c * v ! i) cols"

definition prefix_dot :: "real ndarray \<Rightarrow> nat \<Rightarrow> real list \<Rightarrow> real list" where
  "prefix_dot Q t v = map (\<lambda>i. \<Sum>c<min t (shape1 Q). ent Q i c * v ! c) [0..<shape0 Q]"

text \<open>
  \<open>sorted(set(P), key=lambda p: np.argmax(P == p))\<close>: the distinct labels of \<open>P\<close>, ordered
  by their first occurrence.
\<close>

definition korder_of :: "int list \<Rightarrow> int list" where
  "korder_of P = foldl (\<lambda>acc p. if p \<in> set acc then acc else acc @ [p]) [] P"

text \<open>
  \<open>norm(Q[:, P == k].T.dot(r))**2\<close>. The mask must be as long as \<open>Q\<close> has columns
  (IndexError), and \<open>r\<close> as long as \<open>Q\<close> has rows (ValueError).
\<close>

definition group_corr :: "real ndarray \<Rightarrow> int list \<Rightarrow> real list \<Rightarrow> int \<Rightarrow> py_error + real" where
  "group_corr Q P v k =
     (if length P \<noteq> shape1 Q then Inl IndexError
      else if length v \<noteq> shape0 Q then Inl (ValueError ''shapes not aligned'')
      else Inr ((norm_vec (cols_T_dot Q (mask_cols P k) v))\<^sup>2))"

record lars_state =
  lars_t :: nat
  lars_r :: "real list"
  lars_mu :: "real list"
  lars_path :: "real list list"

text \<open>
  One pass of the loop over \<open>enumerate(pairs)\<close>:
  \<^verbatim>\<open>
      p1 = sum(P == k1)
      p2 = sum(P == k2)
      c1 = norm(Q[:, P == k1].T.dot(r))**2 * f(p1)
      c2 = norm(Q[:, P == k2].T.dot(r))**2 * f(p2)
      assert c2 <= c1
      alpha = 1 - np.sqrt(c2 / c1)
      path[i] = alpha * Q.T.dot(r).ravel()
      t += np.sum(P == k2)
      r = r - Q[:, :t].dot(path[i])
      mu = mu + Q[:, :t].dot(path[i])
  \<close>
  \<open>path[i]\<close> has one entry per column of \<open>Q\<close>, so \<open>Q[:, :t].dot(path[i])\<close> raises
  ValueError unless the slice \<open>Q[:, :t]\<close> holds all columns of \<open>Q\<close>. The quotient and the
  square root raise nothing; where they are not real numbers the model stops with
  \<open>NanValue\<close> at the next statement that would use them.
\<close>

definition lars_step ::
  "real ndarray \<Rightarrow> int list \<Rightarrow> (nat \<Rightarrow> real) \<Rightarrow> lars_state \<Rightarrow> nat \<times> int \<times> int \<Rightarrow> py_error + lars_state" where
  "lars_step Q P f s x =
     (case x of (i, k1, k2) \<Rightarrow>
        let p1 = count_eq P k1;
            p2 = count_eq P k2
        in bind_err (group_corr Q P (lars_r s) k1) (\<lambda>g1.
           bind_err (group_corr Q P (lars_r s) k2) (\<lambda>g2.
           let c1 = g1 * f p1;
               c2 = g2 * f p2
           in if \<not> c2 \<le> c1 then Inl AssertionError
              else let t' = lars_t s + p2
                   in if min t' (shape1 Q) \<noteq> shape1 Q then Inl (ValueError ''shapes not aligned'')
                      else if c1 = 0 \<or> c2 / c1 < 0 then Inl NanValue
                      else let alpha = 1 - sqrt (c2 / c1);
                               row = map (\<lambda>v. alpha * v) (cols_T_dot Q [0..<shape1 Q] (lars_r s));
                               d = prefix_dot Q t' row
                           in Inr \<lparr>lars_t = t',
                                   lars_r = map2 (\<lambda>u v. u - v) (lars_r s) d,
                                   lars_mu = map2 (\<lambda>u v. u + v) (lars_mu s) d,
                                   lars_path = (lars_path s)[i := row]\<rparr>)))"

fun lars_loop ::
  "real ndarray \<Rightarrow> int list \<Rightarrow> (nat \<Rightarrow> real) \<Rightarrow> lars_state \<Rightarrow> (nat \<times> int \<times> int) list \<Rightarrow> py_error + lars_state" where
  "lars_loop Q P f s [] = Inr s"
| "lars_loop Q P f s (x # xs) = bind_err (lars_step Q P f s x) (\<lambda>s'. lars_loop Q P f s' xs)"

text \<open>
  The jump to the least-squares solution and the final assertion:
  \<^verbatim>\<open>
      path[-1] = Q.T.dot(r).ravel()
      r = r - Q.dot(path[-1])
      mu = mu + Q.dot(path[-1])
      assert norm(Q.T.dot(r)) < 1e-3
      return path, mu
  \<close>
\<close>

definition lars_finish :: "real ndarray \<Rightarrow> lars_state \<Rightarrow> py_error + (real ndarray \<times> real list)" where
  "lars_finish Q s =
     (if length (lars_r s) \<noteq> shape0 Q then Inl (ValueError ''shapes not aligned'')
      else let row = cols_T_dot Q [0..<shape1 Q] (lars_r s);
               d = prefix_dot Q (shape1 Q) row;
               r' = map2 (\<lambda>u v. u - v) (lars_r s) d;
               mu' = map2 (\<lambda>u v. u + v) (lars_mu s) d;
               path' = (lars_path s)[length (lars_path s) - 1 := row]
           in if \<not> norm_vec (cols_T_dot Q [0..<shape1 Q] r') < 1 / 1000 then Inl AssertionError
              else Inr (\<lparr>shape0 = length path', shape1 = shape1 Q, rows = path'\<rparr>, mu'))"

text \<open>
  \<^verbatim>\<open>
  def mkl_lars(Q, P, y, f=p_ri):
      korder = sorted(set(P), key=lambda p: np.argmax(P == p))
      pairs = zip(korder, korder[1:])
      path = np.zeros((len(korder), Q.shape[1]))
      t = np.sum(P == korder[0])
      r = y.ravel()
      mu = 0
      for i, (k1, k2) in enumerate(pairs): ...
  \<close>
  \<open>korder[0]\<close> raises IndexError for an empty \<open>P\<close>. \<open>mu\<close> starts as the number 0, which
  the first sum turns into a vector with one entry per row of \<open>Q\<close>; it is that zero vector
  from the start here. The penalty \<open>f\<close> (by default \<open>p_ri\<close>, which is not part of the
  sources at hand) is a parameter.
\<close>

definition mkl_lars ::
  "real ndarray \<Rightarrow> int list \<Rightarrow> real ndarray \<Rightarrow> (nat \<Rightarrow> real) \<Rightarrow> py_error + (real ndarray \<times> real list)" where
  "mkl_lars Q P y f =
     (let korder = korder_of P;
          pairs = zip korder (tl korder);
          path = replicate (length korder) (replicate (shape1 Q) 0)
      in if korder = [] then Inl IndexError
         else bind_err
                (lars_loop Q P f
                   \<lparr>lars_t = count_eq P (hd korder), lars_r = ravel y,
                    lars_mu = replicate (shape0 Q) 0, lars_path = path\<rparr>
                   (zip [0..<length pairs] pairs))
                (lars_finish Q))"

lemma korder_of_012: "korder_of [0, 1, 2] = [0, 1, 2]"
  by code_simp

lemma ent_eye3: "ent (eye 3 3) i j = (if i = j then 1 else 0)" if "i < 3" "j < 3"
  using that by (simp add: eye_def)

lemma group_corr_eye3_0: "group_corr (eye 3 3) [0, 1, 2] [3, 2, 1] 0 = Inr 9"
  by (simp add: group_corr_def eye_def mask_cols_def cols_T_dot_def norm_vec_def
      upt_rec [of 0] upt_rec [of 1] upt_rec [of 2] upt_rec [of 3]  numeral_3_eq_3 lessThan_Suc)

lemma group_corr_eye3_1: "group_corr (eye 3 3) [0, 1, 2] [3, 2, 1] 1 = Inr 4"
  by (simp add: group_corr_def eye_def mask_cols_def cols_T_dot_def norm_vec_def
      upt_rec [of 0] upt_rec [of 1] upt_rec [of 2] upt_rec [of 3]  numeral_3_eq_3 lessThan_Suc)

text \<open>
  C3. The claim: for every \<open>Q\<close> with orthonormal columns, every \<open>P\<close> whose labels partition
  the columns of \<open>Q\<close>, every \<open>y\<close> and every positive penalty for which the checks
  \<open>c2 <= c1\<close> pass, \<open>mkl_lars\<close> returns a path with one row per label and a residual
  orthogonal to \<open>Q\<close>. With three labels the first pass of the loop already fails: for the
  \<open>3 \<times> 3\<close> identity, \<open>P = [0, 1, 2]\<close>, \<open>y = (3, 2, 1)\<close> and the constant penalty 1 the
  check \<open>4 <= 9\<close> passes, \<open>t\<close> becomes 2, and \<open>Q[:, :2].dot(path[0])\<close> multiplies a
  \<open>3 \<times> 2\<close> slice with a vector of 3 entries.
\<close>

theorem mkl_lars_three_groups_raises:
  "mkl_lars (eye 3 3) [0, 1, 2] \<lparr>shape0 = 3, shape1 = 1, rows = [[3], [2], [1]]\<rparr> (\<lambda>p. 1)
     = Inl (ValueError ''shapes not aligned'')
   \<and> dot (T (eye 3 3)) (eye 3 3) = Inr (eye 3 3)
   \<and> group_corr (eye 3 3) [0, 1, 2] [3, 2, 1] 0 = Inr 9
   \<and> group_corr (eye 3 3) [0, 1, 2] [3, 2, 1] 1 = Inr 4"
proof -
  have orth: "dot (T (eye 3 3)) (eye 3 3) = Inr (eye 3 3)"
    by code_simp
  have rv: "ravel \<lparr>shape0 = 3, shape1 = Suc 0, rows = [[3], [2], [1::real]]\<rparr> = [3, 2, 1]"
    by code_simp
  have c: "count_eq [0, 1, 2] 0 = 1" "count_eq [0, 1, 2] 1 = 1"
    by (simp_all add: count_eq_def)
  have sh: "shape1 (eye 3 3) = 3" "shape0 (eye 3 3) = 3" by (simp_all add: eye_def)
  have st: "lars_step (eye 3 3) [0, 1, 2] (\<lambda>p. 1)
      \<lparr>lars_t = Suc 0, lars_r = [3, 2, 1], lars_mu = m, lars_path = pth\<rparr>
      (0, 0, 1) = Inl (ValueError ''shapes not aligned'')" for m pth
    by (simp add: lars_step_def group_corr_eye3_0 group_corr_eye3_1 c sh)
  have "mkl_lars (eye 3 3) [0, 1, 2] \<lparr>shape0 = 3, shape1 = 1, rows = [[3], [2], [1]]\<rparr> (\<lambda>p. 1)
      = Inl (ValueError ''shapes not aligned'')"
    by (simp add: mkl_lars_def korder_of_012 rv c sh st upt_rec [of 0] upt_rec [of 1])
  with orth group_corr_eye3_0 group_corr_eye3_1 show ?thesis by simp
qed

text \<open>
  With one or two distinct labels the loop makes at most one pass, whose slice \<open>Q[:, :t]\<close>
  is all of \<open>Q\<close>. Then, for a \<open>Q\<close> with orthonormal columns and in exact arithmetic, the
  jump to the least-squares solution leaves a residual \<open>y - mu\<close> orthogonal to every
  column of \<open>Q\<close>, the final assertion holds, and the path has one row per label.
\<close>

definition orthonormal_cols :: "real ndarray \<Rightarrow> bool" where
  "orthonormal_cols Q \<longleftrightarrow>
     (\<forall>c<shape1 Q. \<forall>c'<shape1 Q.
        (\<Sum>i<shape0 Q. ent Q i c * ent Q i c') = (if c = c' then 1 else 0))"

lemma norm_vec_zero: "norm_vec (replicate m 0) = 0"
  by (simp add: norm_vec_def sum_list_replicate)

lemma length_prefix_dot [simp]: "length (prefix_dot Q t v) = shape0 Q"
  by (simp add: prefix_dot_def)

lemma length_cols_T_dot [simp]: "length (cols_T_dot Q cols v) = length cols"
  by (simp add: cols_T_dot_def)

lemma residual_orthogonal:
  assumes o: "orthonormal_cols Q" and l: "length v = shape0 Q"
  shows "cols_T_dot Q [0..<shape1 Q]
           (map2 (\<lambda>a b. a - b) v (prefix_dot Q (shape1 Q) (cols_T_dot Q [0..<shape1 Q] v)))
         = replicate (shape1 Q) 0"
proof -
  let ?n = "shape0 Q" and ?m = "shape1 Q"
  let ?row = "\<lambda>c. \<Sum>i<?n. ent Q i c * v ! i"
  let ?d = "prefix_dot Q ?m (cols_T_dot Q [0..<?m] v)"
  have d: "?d ! i = (\<Sum>c<?m. ent Q i c * ?row c)" if "i < ?n" for i
    using that by (simp add: prefix_dot_def cols_T_dot_def)
  have r': "map2 (\<lambda>a b. a - b) v ?d ! i = v ! i - (\<Sum>c<?m. ent Q i c * ?row c)" if "i < ?n" for i
    using that l by (simp add: d)
  define w where "w = map2 (\<lambda>a b. a - b) v ?d"
  have w: "w ! i = v ! i - (\<Sum>c<?m. ent Q i c * ?row c)" if "i < ?n" for i
    using that by (simp add: w_def r')
  have z: "(\<Sum>i<?n. ent Q i c * w ! i) = 0" if c: "c < ?m" for c
  proof -
    have "(\<Sum>i<?n. ent Q i c * w ! i)
        = (\<Sum>i<?n. ent Q i c * (v ! i - (\<Sum>c'<?m. ent Q i c' * ?row c')))"
      by (rule sum.cong) (simp_all add: w)
    also have "\<dots> = ?row c - (\<Sum>i<?n. \<Sum>c'<?m. ent Q i c * ent Q i c' * ?row c')"
      by (simp add: right_diff_distrib sum_subtractf sum_distrib_left mult.assoc)
    also have "(\<Sum>i<?n. \<Sum>c'<?m. ent Q i c * ent Q i c' * ?row c')
        = (\<Sum>c'<?m. \<Sum>i<?n. ent Q i c * ent Q i c' * ?row c')"
      by (rule sum.swap)
    also have "\<dots> = (\<Sum>c'<?m. (\<Sum>i<?n. ent Q i c * ent Q i c') * ?row c')"
      by (simp add: sum_distrib_right)
    also have "\<dots> = (\<Sum>c'<?m. (if c = c' then 1 else 0) * ?row c')"
      using o c by (intro sum.cong) (simp_all add: orthonormal_cols_def)
    also have "\<dots> = (\<Sum>c'<?m. if c = c' then ?row c' else 0)"
      by (rule sum.cong) simp_all
    also have "\<dots> = ?row c"
      using c by (simp add: sum.delta')
    finally show ?thesis by simp
  qed
  have "cols_T_dot Q [0..<?m] w = replicate ?m 0"
    by (rule nth_equalityI) (simp_all add: cols_T_dot_def z)
  then show ?thesis by (simp only: w_def)
qed

lemma lars_finish_orthonormal:
  assumes o: "orthonormal_cols Q" and l: "length (lars_r s) = shape0 Q"
  shows "lars_finish Q s =
     Inr (\<lparr>shape0 = length (lars_path s), shape1 = shape1 Q,
           rows = (lars_path s)[length (lars_path s) - 1 := cols_T_dot Q [0..<shape1 Q] (lars_r s)]\<rparr>,
          map2 (\<lambda>a b. a + b) (lars_mu s)
            (prefix_dot Q (shape1 Q) (cols_T_dot Q [0..<shape1 Q] (lars_r s))))"
  using l by (simp add: lars_finish_def Let_def residual_orthogonal [OF o l] norm_vec_zero)

lemma foldl_korder_set:
  "set (foldl (\<lambda>acc p. if p \<in> set acc then acc else acc @ [p]) acc P) = set acc \<union> set P"
  by (induction P arbitrary: acc) auto

lemma foldl_korder_distinct:
  "distinct acc \<Longrightarrow> distinct (foldl (\<lambda>acc p. if p \<in> set acc then acc else acc @ [p]) acc P)"
  by (induction P arbitrary: acc) auto

lemma set_korder_of: "set (korder_of P) = set P"
  by (simp add: korder_of_def foldl_korder_set)

lemma distinct_korder_of: "distinct (korder_of P)"
  by (simp add: korder_of_def foldl_korder_distinct)

lemma count_two_labels:
  assumes "korder_of P = [k1, k2]"
  shows "count_eq P k1 + count_eq P k2 = length P"
proof -
  from assms set_korder_of [of P] have s: "set P = {k1, k2}" by simp
  from assms distinct_korder_of [of P] have ne: "k1 \<noteq> k2" by simp
  have "filter (\<lambda>p. \<not> p = k1) P = filter (\<lambda>p. p = k2) P"
    using s ne by (intro filter_cong) auto
  with sum_length_filter_compl [of "\<lambda>p. p = k1" P] show ?thesis
    by (simp add: count_eq_def)
qed

lemma count_one_label:
  assumes "korder_of P = [k1]"
  shows "count_eq P k1 = length P"
proof -
  from assms set_korder_of [of P] have "set P = {k1}" by simp
  then have "filter (\<lambda>p. p = k1) P = P" by (intro filter_True) simp
  then show ?thesis by (simp add: count_eq_def)
qed

lemma map2_add_zero: "length d = n \<Longrightarrow> map2 (\<lambda>a b. a + b) (replicate n (0::real)) d = d"
  by (rule nth_equalityI) simp_all

lemma mkl_lars_one_group:
  assumes o: "orthonormal_cols Q" and k: "korder_of P = [k1]"
    and ly: "length (ravel y) = shape0 Q"
  shows "\<exists>path mu. mkl_lars Q P y f = Inr (path, mu) \<and> shape0 path = 1
     \<and> cols_T_dot Q [0..<shape1 Q] (map2 (\<lambda>a b. a - b) (ravel y) mu) = replicate (shape1 Q) 0"
proof -
  let ?s = "\<lparr>lars_t = count_eq P k1, lars_r = ravel y, lars_mu = replicate (shape0 Q) 0,
             lars_path = [replicate (shape1 Q) 0]\<rparr>"
  let ?d = "prefix_dot Q (shape1 Q) (cols_T_dot Q [0..<shape1 Q] (ravel y))"
  have "mkl_lars Q P y f = lars_finish Q ?s"
    by (simp add: mkl_lars_def k)
  also have "\<dots> = Inr (\<lparr>shape0 = 1, shape1 = shape1 Q, rows = [cols_T_dot Q [0..<shape1 Q] (ravel y)]\<rparr>,
      map2 (\<lambda>a b. a + b) (replicate (shape0 Q) 0) ?d)"
    using lars_finish_orthonormal [OF o, of ?s] ly by simp
  also have "map2 (\<lambda>a b. a + b) (replicate (shape0 Q) 0) ?d = ?d"
    by (rule map2_add_zero) simp
  finally have "mkl_lars Q P y f
      = Inr (\<lparr>shape0 = 1, shape1 = shape1 Q, rows = [cols_T_dot Q [0..<shape1 Q] (ravel y)]\<rparr>, ?d)" .
  with residual_orthogonal [OF o ly] show ?thesis by simp
qed

lemma mkl_lars_two_groups:
  assumes o: "orthonormal_cols Q" and k: "korder_of P = [k1, k2]"
    and lp: "length P = shape1 Q" and ly: "length (ravel y) = shape0 Q"
    and le: "(norm_vec (cols_T_dot Q (mask_cols P k2) (ravel y)))\<^sup>2 * f (count_eq P k2)
              \<le> (norm_vec (cols_T_dot Q (mask_cols P k1) (ravel y)))\<^sup>2 * f (count_eq P k1)"
    and nz: "(norm_vec (cols_T_dot Q (mask_cols P k1) (ravel y)))\<^sup>2 * f (count_eq P k1) \<noteq> 0"
    and nn: "0 \<le> (norm_vec (cols_T_dot Q (mask_cols P k2) (ravel y)))\<^sup>2 * f (count_eq P k2)
                 / ((norm_vec (cols_T_dot Q (mask_cols P k1) (ravel y)))\<^sup>2 * f (count_eq P k1))"
  shows "\<exists>path mu. mkl_lars Q P y f = Inr (path, mu) \<and> shape0 path = 2
     \<and> cols_T_dot Q [0..<shape1 Q] (map2 (\<lambda>a b. a - b) (ravel y) mu) = replicate (shape1 Q) 0"
proof -
  let ?n = "shape0 Q" and ?m = "shape1 Q"
  let ?c1 = "(norm_vec (cols_T_dot Q (mask_cols P k1) (ravel y)))\<^sup>2 * f (count_eq P k1)"
  let ?c2 = "(norm_vec (cols_T_dot Q (mask_cols P k2) (ravel y)))\<^sup>2 * f (count_eq P k2)"
  let ?row = "map (\<lambda>v. (1 - sqrt (?c2 / ?c1)) * v) (cols_T_dot Q [0..<?m] (ravel y))"
  let ?d1 = "prefix_dot Q (count_eq P k1 + count_eq P k2) ?row"
  let ?r1 = "map2 (\<lambda>a b. a - b) (ravel y) ?d1"
  let ?s0 = "\<lparr>lars_t = count_eq P k1, lars_r = ravel y, lars_mu = replicate ?n 0,
              lars_path = [replicate ?m 0, replicate ?m 0]\<rparr>"
  let ?s1 = "\<lparr>lars_t = count_eq P k1 + count_eq P k2, lars_r = ?r1,
              lars_mu = map2 (\<lambda>a b. a + b) (replicate ?n 0) ?d1,
              lars_path = [?row, replicate ?m 0]\<rparr>"
  let ?d2 = "prefix_dot Q ?m (cols_T_dot Q [0..<?m] ?r1)"
  have t: "count_eq P k1 + count_eq P k2 = ?m"
    using count_two_labels [OF k] lp by simp
  have gc: "group_corr Q P (ravel y) j = Inr ((norm_vec (cols_T_dot Q (mask_cols P j) (ravel y)))\<^sup>2)" for j
    using lp ly by (simp add: group_corr_def)
  have nn': "\<not> ?c2 / ?c1 < 0" using nn by simp
  have step: "lars_step Q P f ?s0 (0, k1, k2) = Inr ?s1"
    unfolding lars_step_def Let_def
    using le nz nn' by (simp add: gc t)
  have l1: "length ?r1 = ?n" using ly by simp
  have "mkl_lars Q P y f = lars_finish Q ?s1"
    by (simp add: mkl_lars_def k step)
  also have "\<dots> = Inr (\<lparr>shape0 = 2, shape1 = ?m, rows = [?row, cols_T_dot Q [0..<?m] ?r1]\<rparr>,
      map2 (\<lambda>a b. a + b) (map2 (\<lambda>a b. a + b) (replicate ?n 0) ?d1) ?d2)"
    using lars_finish_orthonormal [OF o, of ?s1] l1 by simp
  also have "map2 (\<lambda>a b. a + b) (replicate ?n 0) ?d1 = ?d1"
    by (rule map2_add_zero) simp
  finally have res: "mkl_lars Q P y f
      = Inr (\<lparr>shape0 = 2, shape1 = ?m, rows = [?row, cols_T_dot Q [0..<?m] ?r1]\<rparr>,
             map2 (\<lambda>a b. a + b) ?d1 ?d2)" .
  have "map2 (\<lambda>a b. a - b) (ravel y) (map2 (\<lambda>a b. a + b) ?d1 ?d2) = map2 (\<lambda>a b. a - b) ?r1 ?d2"
    using ly by (intro nth_equalityI) simp_all
  with residual_orthogonal [OF o l1]
  have "cols_T_dot Q [0..<?m] (map2 (\<lambda>a b. a - b) (ravel y) (map2 (\<lambda>a b. a + b) ?d1 ?d2))
      = replicate ?m 0"
    by simp
  with res show ?thesis by simp
qed

section \<open>Greedy selection of the basis (examples/lars/lars\_mkl.py)\<close>

text \<open>
  Slices and index arrays: \<open>A[:, a:b]\<close>, \<open>A[:r, :c]\<close>, \<open>A[:, idxs]\<close> (IndexError for an
  index outside the array), \<open>np.where(np.array(P) == j)[0]\<close>, \<open>np.zeros((n, m))\<close>, the
  Frobenius norm \<open>norm(A)\<close> of a matrix, and \<open>G[:, a:] = 0\<close>.
\<close>

definition slice_cols :: "real ndarray \<Rightarrow> nat \<Rightarrow> nat \<Rightarrow> real ndarray" where
  "slice_cols A a b = mk (shape0 A) (min b (shape1 A) - a) (\<lambda>i j. ent A i (a + j))"

definition slice_both :: "real ndarray \<Rightarrow> nat \<Rightarrow> nat \<Rightarrow> real ndarray" where
  "slice_both A r c = mk (min r (shape0 A)) (min c (shape1 A)) (ent A)"

definition take_cols :: "real ndarray \<Rightarrow> nat list \<Rightarrow> py_error + real ndarray" where
  "take_cols A idxs =
     (if list_ex (\<lambda>c. shape1 A \<le> c) idxs then Inl IndexError
      else Inr (mk (shape0 A) (length idxs) (\<lambda>i c. ent A i (idxs ! c))))"

definition positions :: "nat list \<Rightarrow> nat \<Rightarrow> nat list" where
  "positions P j = filter (\<lambda>i. P ! i = j) [0..<length P]"

definition zeros :: "nat \<Rightarrow> nat \<Rightarrow> real ndarray" where
  "zeros n m = mk n m (\<lambda>i j. 0)"

definition frobenius :: "real ndarray \<Rightarrow> real" where
  "frobenius A = sqrt (\<Sum>i<shape0 A. \<Sum>j<shape1 A. (ent A i j)\<^sup>2)"

definition zero_cols_from :: "real ndarray \<Rightarrow> nat \<Rightarrow> real ndarray" where
  "zero_cols_from G a = mk (shape0 G) (shape1 G) (\<lambda>i c. if a \<le> c then 0 else ent G i c)"

text \<open>
  An array that a callee fills in place keeps its shape, whatever contents the callee
  produces.
\<close>

definition overwrite :: "real ndarray \<Rightarrow> real ndarray \<Rightarrow> real ndarray" where
  "overwrite A B = mk (shape0 A) (shape1 A) (ent B)"

text \<open>
  Arithmetic of numpy floats with a real number, as the gain formula needs it, and
  \<open>np.round(v, 5)\<close>, which rounds halves to the even neighbour.
\<close>

fun nf_times :: "npfloat \<Rightarrow> real \<Rightarrow> npfloat" where
  "nf_times (Fin a) c = Fin (a * c)"
| "nf_times PInf c = (if 0 < c then PInf else if c < 0 then NInf else NaN)"
| "nf_times NInf c = (if 0 < c then NInf else if c < 0 then PInf else NaN)"
| "nf_times NaN c = NaN"

fun nf_plus :: "npfloat \<Rightarrow> real \<Rightarrow> npfloat" where
  "nf_plus (Fin a) c = Fin (a + c)"
| "nf_plus v c = v"

fun nf_less :: "npfloat \<Rightarrow> npfloat \<Rightarrow> bool" where
  "nf_less (Fin a) (Fin b) = (a < b)"
| "nf_less NInf (Fin b) = True"
| "nf_less NInf PInf = True"
| "nf_less (Fin a) PInf = True"
| "nf_less u v = False"

definition rint :: "real \<Rightarrow> int" where
  "rint v =
     (let fl = \<lfloor>v\<rfloor>; d = v - of_int fl
      in if d < 1 / 2 then fl else if 1 / 2 < d then fl + 1 else if even fl then fl else fl + 1)"

definition np_round5 :: "real \<Rightarrow> real" where
  "np_round5 v = of_int (rint (v * 100000)) / 100000"

text \<open>
  \<open>np.argmax\<close> of a flat array: the first position of the maximum, the first nan if there
  is one, ValueError on an empty array.
\<close>

fun argmax_from :: "nat \<Rightarrow> npfloat \<Rightarrow> nat \<Rightarrow> npfloat list \<Rightarrow> nat" where
  "argmax_from best v i [] = best"
| "argmax_from best v i (x # xs) =
     (if v = NaN then best
      else if x = NaN \<or> nf_less v x then argmax_from i x (Suc i) xs
      else argmax_from best v (Suc i) xs)"

fun np_argmax :: "npfloat list \<Rightarrow> py_error + nat" where
  "np_argmax [] = Inl (ValueError ''attempt to get argmax of an empty sequence'')"
| "np_argmax (x # xs) = Inr (argmax_from 0 x 1 xs)"

text \<open>
  The functions \<open>mkl_qr\<close> imports from modules that are not part of the sources at hand
  are parameters. The in-place ones return the new contents of what they write:
  \<^item> \<open>cholesky_steps(K, G, start, act, ina, max_steps, order)\<close> gives \<open>G\<close>, \<open>act\<close>, \<open>ina\<close>
    (an argument that the call leaves out is \<open>None\<close>);
  \<^item> \<open>qr_steps(G, Q, R, max_steps, start, qstart)\<close>, \<open>qr_reorder(Q, R, rank, order)\<close> and
    \<open>qr_orient(Q, R, y)\<close> give \<open>Q\<close> and \<open>R\<close>;
  \<^item> \<open>safe_divide(C, B)\<close>, imported as \<open>div\<close>, gives the quotients.
  The penalty \<open>f\<close> is a parameter of \<open>mkl_qr\<close> itself.
\<close>

record externals =
  cholesky_steps :: "real ndarray \<Rightarrow> real ndarray \<Rightarrow> nat option \<Rightarrow> nat list \<Rightarrow> nat list
     \<Rightarrow> nat option \<Rightarrow> nat list option \<Rightarrow> py_error + (real ndarray \<times> nat list \<times> nat list)"
  qr_steps :: "real ndarray \<Rightarrow> real ndarray \<Rightarrow> real ndarray \<Rightarrow> nat \<Rightarrow> nat \<Rightarrow> nat
     \<Rightarrow> py_error + (real ndarray \<times> real ndarray)"
  qr_reorder :: "real ndarray \<Rightarrow> real ndarray \<Rightarrow> nat \<Rightarrow> nat list
     \<Rightarrow> py_error + (real ndarray \<times> real ndarray)"
  qr_orient :: "real ndarray \<Rightarrow> real ndarray \<Rightarrow> real ndarray
     \<Rightarrow> py_error + (real ndarray \<times> real ndarray)"
  safe_divide :: "real list \<Rightarrow> real list \<Rightarrow> npfloat list"

text \<open>
  \<^verbatim>\<open>
  def zy2_app(G, Q, y, QTY):
      n = G.shape[0]
      if G.shape[1] == 0:
          return -np.inf * np.ones((n,))
      GTY = G.T.dot(y)
      GTQ = G.T.dot(Q)
      A1 = GTY.dot(GTY.T) - GTQ.dot(QTY.dot(GTY.T))
      C = np.array([G[i, :].T.dot(A1).dot(G[i, :]) for i in range(n)])
      A2 = G.T.dot(G) - GTQ.dot(GTQ.T)
      B = np.array([G[i, :].T.dot(A2).dot(G[i, :]) for i in range(n)])
      B = np.round(B, 5)
      return div(C, B)
  \<close>
\<close>

definition quad_forms :: "real ndarray \<Rightarrow> real ndarray \<Rightarrow> py_error + real list" where
  "quad_forms G A =
     (if shape0 G = 0 then Inr []
      else if shape0 A \<noteq> shape1 G \<or> shape1 A \<noteq> shape1 G then Inl (ValueError ''shapes not aligned'')
      else Inr (map (\<lambda>i. \<Sum>a<shape1 G. (\<Sum>b<shape1 G. ent G i b * ent A b a) * ent G i a)
                  [0..<shape0 G]))"

definition zy2_app ::
  "externals \<Rightarrow> real ndarray \<Rightarrow> real ndarray \<Rightarrow> real ndarray \<Rightarrow> real ndarray \<Rightarrow> py_error + npfloat list" where
  "zy2_app ext G Q y QTY =
     (if shape1 G = 0 then Inr (replicate (shape0 G) NInf)
      else bind_err (dot (T G) y) (\<lambda>GTY.
           bind_err (dot (T G) Q) (\<lambda>GTQ.
           bind_err (dot GTY (T GTY)) (\<lambda>yy.
           bind_err (dot QTY (T GTY)) (\<lambda>qy.
           bind_err (dot GTQ qy) (\<lambda>gq.
           bind_err (broadcast (\<lambda>u v. u - v) yy gq) (\<lambda>A1.
           bind_err (quad_forms G A1) (\<lambda>C.
           bind_err (dot (T G) G) (\<lambda>gg.
           bind_err (dot GTQ (T GTQ)) (\<lambda>qq.
           bind_err (broadcast (\<lambda>u v. u - v) gg qq) (\<lambda>A2.
           bind_err (quad_forms G A2) (\<lambda>B.
           Inr (safe_divide ext C (map np_round5 B))))))))))))))"

text \<open>
  What \<open>mkl_qr\<close> does besides computing: the buffers it allocates with \<open>np.zeros\<close>, the
  in-place calls it makes and the warning it emits
  (\<open>"Iterations ended prematurely at step = %d < %d" % (step, rank)\<close>).
\<close>

datatype event =
    Zeros "nat list"
  | CholeskySteps
  | QrSteps
  | QrReorder
  | QrOrient
  | Warn nat nat

record qr_state =
  qr_Q :: "real ndarray"
  qr_R :: "real ndarray"
  qr_P :: "nat list"
  qr_corr :: "real list"
  qr_cost :: "real list"
  qr_ncol :: "nat list"
  qr_Gs :: "real ndarray list"
  qr_Acts :: "nat list list"
  qr_Inas :: "nat list list"
  qr_rank :: nat
  qr_log :: "event list"

text \<open>A call either raises, leaving the events so far, or returns.\<close>

definition lift_err ::
  "event list \<Rightarrow> py_error + 'a \<Rightarrow> ('a \<Rightarrow> (py_error \<times> event list) + 'b) \<Rightarrow> (py_error \<times> event list) + 'b" where
  "lift_err lg r k = (case r of Inl e \<Rightarrow> Inl (e, lg) | Inr a \<Rightarrow> k a)"

fun bind_run ::
  "(py_error \<times> event list) + 'a \<Rightarrow> ('a \<Rightarrow> (py_error \<times> event list) + 'b) \<Rightarrow> (py_error \<times> event list) + 'b" where
  "bind_run (Inl e) k = Inl e"
| "bind_run (Inr a) k = k a"

text \<open>
  The look-ahead phase:
  \<^verbatim>\<open>
      for j in range(len(Ks)):
          Gs.append(np.zeros((n, rank + delta)))
          Acts.append([])
          Inas.append(range(n))
          if delta > 0:
              cholesky_steps(Ks[j], Gs[j], act=[], ina=range(n), max_steps=delta)
  \<close>
\<close>

fun look_ahead ::
  "externals \<Rightarrow> nat \<Rightarrow> nat \<Rightarrow> nat \<Rightarrow> real ndarray list \<Rightarrow> qr_state \<Rightarrow> (py_error \<times> event list) + qr_state" where
  "look_ahead ext n rank delta [] st = Inr st"
| "look_ahead ext n rank delta (K # Ks') st =
     (let G = zeros n (rank + delta);
          st1 = st\<lparr>qr_Gs := qr_Gs st @ [G], qr_Acts := qr_Acts st @ [[]],
                   qr_Inas := qr_Inas st @ [[0..<n]],
                   qr_log := qr_log st @ [Zeros [n, rank + delta]]\<rparr>
      in if 0 < delta then
           let lg = qr_log st1 @ [CholeskySteps]
           in lift_err lg (cholesky_steps ext K G None [] [0..<n] (Some delta) None) (\<lambda>res.
                look_ahead ext n rank delta Ks'
                  (st1\<lparr>qr_Gs := qr_Gs st @ [overwrite G (fst res)], qr_log := lg\<rparr>))
         else look_ahead ext n rank delta Ks' st1)"

text \<open>
  The gains of one pass:
  \<^verbatim>\<open>
      Qa = Q[:, :step]
      QTY = Qa.T.dot(y)
      for j in range(k):
          if delta > 0:
              Ga = Gs[j][:, step:step+delta]
              zy2 = zy2_app(Ga, Qa, y, QTY)
              gain[j, :] = zy2 * f(ncol[j] + 1) + (f(ncol[j] + 1) - f(ncol[j])) * corr[j]
              gain[j, Acts[j]] = -np.inf
          else:
              gain[j, :] = Ks[j].diagonal() - (Gs[j] ** 2).sum(axis=1).ravel()
              gain[j, Acts[j]] = -np.inf
  \<close>
  A row of \<open>gain\<close> takes a vector of its own length \<open>n\<close>, or one of length 1, which is
  repeated; every pass writes every row, so \<open>gain\<close> is a value of the pass.
\<close>

definition assign_row :: "nat \<Rightarrow> 'a list \<Rightarrow> py_error + 'a list" where
  "assign_row n v =
     (if length v = n then Inr v
      else if length v = 1 then Inr (replicate n (hd v))
      else Inl (ValueError ''could not broadcast input array''))"

definition set_neg_inf :: "npfloat list \<Rightarrow> nat list \<Rightarrow> py_error + npfloat list" where
  "set_neg_inf row act =
     (if list_ex (\<lambda>a. length row \<le> a) act then Inl IndexError
      else Inr (map (\<lambda>i. if i \<in> set act then NInf else row ! i) [0..<length row]))"

definition diag_minus_sq :: "real ndarray \<Rightarrow> real ndarray \<Rightarrow> py_error + npfloat list" where
  "diag_minus_sq K G =
     (let dl = min (shape0 K) (shape1 K);
          n = shape0 G;
          sq = (\<lambda>i. \<Sum>c<shape1 G. (ent G i c)\<^sup>2)
      in if dl = n then Inr (map (\<lambda>i. Fin (ent K i i - sq i)) [0..<n])
         else if dl = 1 then Inr (map (\<lambda>i. Fin (ent K 0 0 - sq i)) [0..<n])
         else if n = 1 then Inr (map (\<lambda>i. Fin (ent K i i - sq 0)) [0..<dl])
         else Inl (ValueError ''operands could not be broadcast together''))"

definition gain_row ::
  "externals \<Rightarrow> real ndarray list \<Rightarrow> real ndarray \<Rightarrow> (nat \<Rightarrow> real) \<Rightarrow> nat \<Rightarrow> nat \<Rightarrow> nat
     \<Rightarrow> real ndarray \<Rightarrow> real ndarray \<Rightarrow> qr_state \<Rightarrow> nat \<Rightarrow> py_error + npfloat list" where
  "gain_row ext Ks y f delta n step Qa QTY st j =
     bind_err
       (if 0 < delta then
          bind_err (zy2_app ext (slice_cols (qr_Gs st ! j) step (step + delta)) Qa y QTY) (\<lambda>zy2.
            Inr (map (\<lambda>z. nf_plus (nf_times z (f (qr_ncol st ! j + 1)))
                              ((f (qr_ncol st ! j + 1) - f (qr_ncol st ! j)) * qr_corr st ! j)) zy2))
        else diag_minus_sq (Ks ! j) (qr_Gs st ! j))
       (\<lambda>v. bind_err (assign_row n v) (\<lambda>row. set_neg_inf row (qr_Acts st ! j)))"

fun gain_rows :: "(nat \<Rightarrow> py_error + npfloat list) \<Rightarrow> nat list \<Rightarrow> py_error + npfloat list list" where
  "gain_rows g [] = Inr []"
| "gain_rows g (j # js) = bind_err (g j) (\<lambda>row. bind_err (gain_rows g js) (\<lambda>rest. Inr (row # rest)))"

definition compute_gain ::
  "externals \<Rightarrow> real ndarray list \<Rightarrow> real ndarray \<Rightarrow> (nat \<Rightarrow> real) \<Rightarrow> nat \<Rightarrow> nat \<Rightarrow> nat
     \<Rightarrow> qr_state \<Rightarrow> py_error + npfloat list list" where
  "compute_gain ext Ks y f delta n step st =
     (let Qa = slice_cols (qr_Q st) 0 step
      in bind_err (dot (T Qa) y) (\<lambda>QTY.
           gain_rows (gain_row ext Ks y f delta n step Qa QTY st) [0..<length Ks]))"

text \<open>
  The assertion \<open>norm(G[:, :k_num] - (Q.dot(R))[:, k_inx]) < 1e-5\<close>.
\<close>

definition check_qr :: "real ndarray \<Rightarrow> real ndarray \<Rightarrow> real ndarray \<Rightarrow> nat \<Rightarrow> nat list \<Rightarrow> py_error + unit" where
  "check_qr G Q R k_num k_inx =
     bind_err (dot Q R) (\<lambda>QR.
     bind_err (take_cols QR k_inx) (\<lambda>S.
     bind_err (broadcast (\<lambda>u v. u - v) (slice_cols G 0 k_num) S) (\<lambda>D.
       if frobenius D < 1 / 100000 then Inr () else Inl AssertionError)))"

text \<open>\<open>norm(Q[:, k_inx].T.dot(y)) ** 2\<close>\<close>

definition corr_of :: "real ndarray \<Rightarrow> nat list \<Rightarrow> real ndarray \<Rightarrow> py_error + real" where
  "corr_of Q k_inx y =
     bind_err (take_cols Q k_inx) (\<lambda>Qk.
     bind_err (dot (T Qk) y) (\<lambda>Qky. Inr ((frobenius Qky)\<^sup>2)))"

text \<open>
  Committing the selected pivot:
  \<^verbatim>\<open>
      G = Gs[kern]
      K = Ks[kern]
      P.append(kern)
      k_inx = np.where(np.array(P) == kern)[0]
      k_num = len(k_inx)
      k_start = k_num - 1
      G[:, k_start:] = 0
      cholesky_steps(K, G, start=k_start, act=Acts[kern], ina=Inas[kern], order=[pivot])
      qr_steps(G, Q, R, max_steps=1, start=k_start, qstart=step)
      assert norm(G[:, :k_num] - (Q.dot(R))[:, k_inx]) < 1e-5
      max_steps = min(delta, G.shape[1] - k_num)
      cholesky_steps(K, G,
                     act=list(Acts[kern]),
                     ina=list(set(range(n)) - set(Acts[kern])),
                     start=k_num,
                     max_steps=max_steps)
      assert norm(G[:, :k_num] - (Q.dot(R))[:, k_inx]) < 1e-5
      ncol[kern] += 1
      corr[kern] = norm(Q[:, k_inx].T.dot(y)) ** 2
      cost[kern] = corr[kern] * f(ncol[kern])
  \<close>
  The first call of \<open>cholesky_steps\<close> is handed the lists \<open>Acts[kern]\<close> and \<open>Inas[kern]\<close>
  themselves and so changes them; the second is handed copies. The set difference is
  listed in increasing order.
\<close>

definition qr_commit ::
  "externals \<Rightarrow> real ndarray list \<Rightarrow> real ndarray \<Rightarrow> (nat \<Rightarrow> real) \<Rightarrow> nat \<Rightarrow> nat \<Rightarrow> nat
     \<Rightarrow> nat \<Rightarrow> nat \<Rightarrow> qr_state \<Rightarrow> (py_error \<times> event list) + (bool \<times> qr_state)" where
  "qr_commit ext Ks y f delta n step kern pivot st =
     (let K = Ks ! kern;
          P' = qr_P st @ [kern];
          k_inx = positions P' kern;
          k_num = length k_inx;
          k_start = k_num - 1;
          G1 = zero_cols_from (qr_Gs st ! kern) k_start;
          lg1 = qr_log st @ [CholeskySteps]
      in lift_err lg1
           (cholesky_steps ext K G1 (Some k_start) (qr_Acts st ! kern) (qr_Inas st ! kern)
              None (Some [pivot])) (\<lambda>res1.
         let G2 = overwrite G1 (fst res1);
             act' = fst (snd res1);
             ina' = snd (snd res1);
             lg2 = lg1 @ [QrSteps]
         in lift_err lg2 (qr_steps ext G2 (qr_Q st) (qr_R st) 1 k_start step) (\<lambda>res2.
         let Q' = overwrite (qr_Q st) (fst res2);
             R' = overwrite (qr_R st) (snd res2)
         in lift_err lg2 (check_qr G2 Q' R' k_num k_inx) (\<lambda>ok1.
         let max_steps = min delta (shape1 G2 - k_num);
             lg3 = lg2 @ [CholeskySteps]
         in lift_err lg3
              (cholesky_steps ext K G2 (Some k_num) act' (filter (\<lambda>i. i \<notin> set act') [0..<n])
                 (Some max_steps) None) (\<lambda>res3.
         let G3 = overwrite G2 (fst res3)
         in lift_err lg3 (check_qr G3 Q' R' k_num k_inx) (\<lambda>ok2.
            lift_err lg3 (corr_of Q' k_inx y) (\<lambda>corr'.
         let ncol' = qr_ncol st ! kern + 1
         in Inr (False,
                 st\<lparr>qr_Q := Q', qr_R := R', qr_P := P',
                    qr_corr := (qr_corr st)[kern := corr'],
                    qr_cost := (qr_cost st)[kern := corr' * f ncol'],
                    qr_ncol := (qr_ncol st)[kern := ncol'],
                    qr_Gs := (qr_Gs st)[kern := G3],
                    qr_Acts := (qr_Acts st)[kern := act'],
                    qr_Inas := (qr_Inas st)[kern := ina'],
                    qr_log := lg3\<rparr>))))))))"

text \<open>
  One pass of \<open>for step in range(rank)\<close>; the flag tells whether the pass leaves the loop:
  \<^verbatim>\<open>
      kern, pivot = np.unravel_index(np.argmax(gain), gain.shape)
      if gain[kern, pivot] == 0:
          msg = "Iterations ended prematurely at step = %d < %d" % (step, rank)
          warn(msg)
          rank = step
          break
      assert pivot not in Acts[kern]
  \<close>
\<close>

definition qr_iter ::
  "externals \<Rightarrow> real ndarray list \<Rightarrow> real ndarray \<Rightarrow> (nat \<Rightarrow> real) \<Rightarrow> nat \<Rightarrow> nat \<Rightarrow> nat
     \<Rightarrow> qr_state \<Rightarrow> (py_error \<times> event list) + (bool \<times> qr_state)" where
  "qr_iter ext Ks y f delta n step st =
     lift_err (qr_log st) (compute_gain ext Ks y f delta n step st) (\<lambda>gain.
     lift_err (qr_log st) (np_argmax (concat gain)) (\<lambda>idx.
       let kern = idx div n;
           pivot = idx mod n
       in if gain ! kern ! pivot = Fin 0
          then Inr (True, st\<lparr>qr_rank := step, qr_log := qr_log st @ [Warn step (qr_rank st)]\<rparr>)
          else if pivot \<in> set (qr_Acts st ! kern) then Inl (AssertionError, qr_log st)
          else qr_commit ext Ks y f delta n step kern pivot st))"

fun qr_loop ::
  "externals \<Rightarrow> real ndarray list \<Rightarrow> real ndarray \<Rightarrow> (nat \<Rightarrow> real) \<Rightarrow> nat \<Rightarrow> nat
     \<Rightarrow> qr_state \<Rightarrow> nat list \<Rightarrow> (py_error \<times> event list) + qr_state" where
  "qr_loop ext Ks y f delta n st [] = Inr st"
| "qr_loop ext Ks y f delta n st (step # steps) =
     bind_run (qr_iter ext Ks y f delta n step st) (\<lambda>res.
       if fst res then Inr (snd res) else qr_loop ext Ks y f delta n (snd res) steps)"

text \<open>
  After the loop:
  \<^verbatim>\<open>
      korder = np.argsort(-cost)
      porder = []
      for j in korder:
          porder.extend(list(np.where(np.array(P) == j)[0]))
      qr_reorder(Q, R, rank, porder)
      qr_orient(Q, R, y)
      assert rank == len(porder)
      Q = Q[:, :rank]
      R = R[:rank, :rank]
      P = np.array(P)[porder]
      return Q, R, P
  \<close>
  \<open>np.argsort\<close> is taken to keep equal costs in their order.
\<close>

definition qr_finish ::
  "externals \<Rightarrow> real ndarray \<Rightarrow> qr_state
     \<Rightarrow> (py_error \<times> event list) + ((real ndarray \<times> real ndarray \<times> nat list) \<times> event list)" where
  "qr_finish ext y st =
     (let korder = sort_key (\<lambda>j. - (qr_cost st ! j)) [0..<length (qr_cost st)];
          porder = concat (map (positions (qr_P st)) korder);
          lg1 = qr_log st @ [QrReorder]
      in lift_err lg1 (qr_reorder ext (qr_Q st) (qr_R st) (qr_rank st) porder) (\<lambda>res1.
         let Q1 = overwrite (qr_Q st) (fst res1);
             R1 = overwrite (qr_R st) (snd res1);
             lg2 = lg1 @ [QrOrient]
         in lift_err lg2 (qr_orient ext Q1 R1 y) (\<lambda>res2.
         let Q2 = overwrite Q1 (fst res2);
             R2 = overwrite R1 (snd res2)
         in if qr_rank st \<noteq> length porder then Inl (AssertionError, lg2)
            else Inr ((slice_cols Q2 0 (qr_rank st),
                       slice_both R2 (qr_rank st) (qr_rank st),
                       map (\<lambda>i. qr_P st ! i) porder), lg2))))"

text \<open>
  \<^verbatim>\<open>
  def mkl_qr(Ks, y, rank, delta, f=p_ri):
      if delta == 1:
          raise ValueError("Unstable selection of delta. (delta = 1)")
      k = len(Ks)
      n = Ks[0].shape[0]
      Gs = []
      Acts = []
      Inas = []
      Q = np.zeros((n, rank + k * delta))
      R = np.zeros((rank + k * delta, rank + k * delta))
      P = []
      corr = np.zeros((k,))
      cost = np.zeros((k,))
      ncol = np.zeros((k,))
      gain = np.zeros((k, n))
  \<close>
  \<open>rank\<close> and \<open>delta\<close> are natural numbers; \<open>ncol\<close> holds counts.
\<close>

definition qr_init :: "nat \<Rightarrow> nat \<Rightarrow> nat \<Rightarrow> nat \<Rightarrow> qr_state" where
  "qr_init n k rank delta =
     \<lparr>qr_Q = zeros n (rank + k * delta),
      qr_R = zeros (rank + k * delta) (rank + k * delta),
      qr_P = [],
      qr_corr = replicate k 0,
      qr_cost = replicate k 0,
      qr_ncol = replicate k 0,
      qr_Gs = [], qr_Acts = [], qr_Inas = [],
      qr_rank = rank,
      qr_log = [Zeros [n, rank + k * delta], Zeros [rank + k * delta, rank + k * delta],
                Zeros [k], Zeros [k], Zeros [k], Zeros [k, n]]\<rparr>"

definition mkl_qr ::
  "externals \<Rightarrow> real ndarray list \<Rightarrow> real ndarray \<Rightarrow> nat \<Rightarrow> nat \<Rightarrow> (nat \<Rightarrow> real)
     \<Rightarrow> (py_error \<times> event list) + ((real ndarray \<times> real ndarray \<times> nat list) \<times> event list)" where
  "mkl_qr ext Ks y rank delta f =
     (if delta = 1 then Inl (ValueError ''Unstable selection of delta. (delta = 1)'', [])
      else case Ks of
        [] \<Rightarrow> Inl (IndexError, [])
      | K0 # Ks' \<Rightarrow>
          let k = length Ks;
              n = shape0 K0
          in bind_run (look_ahead ext n rank delta Ks (qr_init n k rank delta)) (\<lambda>st1.
             bind_run (qr_loop ext Ks y f delta n st1 [0..<rank]) (\<lambda>st2.
             qr_finish ext y st2)))"

text \<open>
  C4. With \<open>delta = 1\<close>, \<open>mkl_qr\<close> raises the ValueError "Unstable selection of delta"
  whatever its other arguments are, and before anything else happens: no buffer has been
  allocated and no Cholesky or QR step has run.
\<close>

theorem mkl_qr_delta_one:
  "mkl_qr ext Ks y rank 1 f = Inl (ValueError ''Unstable selection of delta. (delta = 1)'', [])"
  by (simp add: mkl_qr_def)

section \<open>Leaving the loop of \<open>mkl_qr\<close> early\<close>

text \<open>
  What every pass keeps: the shapes of \<open>Q\<close> and \<open>R\<close>, the length of \<open>cost\<close>, and that
  \<open>P\<close> lists kernel indices.
\<close>

lemma length_positions: "length (positions P j) = length (filter (\<lambda>p. p = j) P)"
proof (induction P rule: rev_induct)
  case Nil
  then show ?case by (simp add: positions_def)
next
  case (snoc x xs)
  have "filter (\<lambda>i. (xs @ [x]) ! i = j) [0..<length xs] = filter (\<lambda>i. xs ! i = j) [0..<length xs]"
    by (rule filter_cong) (simp_all add: nth_append)
  then show ?case using snoc by (simp add: positions_def)
qed

lemma positions_lt: "i \<in> set (positions P j) \<Longrightarrow> i < length P"
  by (simp add: positions_def)

lemma sum_indicator: "distinct ks \<Longrightarrow> (\<Sum>j\<leftarrow>ks. if x = j then (1::nat) else 0) = (if x \<in> set ks then 1 else 0)"
  by (induction ks) auto

lemma sum_count_perm:
  assumes "distinct ks" and "list_all (\<lambda>p. p \<in> set ks) P"
  shows "(\<Sum>j\<leftarrow>ks. length (filter (\<lambda>p. p = j) P)) = length P"
  using assms(2)
proof (induction P)
  case Nil
  then show ?case by simp
next
  case (Cons x P)
  have "(\<Sum>j\<leftarrow>ks. length (filter (\<lambda>p. p = j) (x # P)))
      = (\<Sum>j\<leftarrow>ks. (if x = j then 1 else 0) + length (filter (\<lambda>p. p = j) P))"
    by (rule arg_cong [where f = sum_list]) (simp add: )
  also have "\<dots> = (\<Sum>j\<leftarrow>ks. if x = j then 1 else 0) + (\<Sum>j\<leftarrow>ks. length (filter (\<lambda>p. p = j) P))"
    by (simp add: sum_list_addf)
  also have "\<dots> = 1 + length P"
    using Cons assms(1) by (simp add: sum_indicator)
  finally show ?case by simp
qed

lemma length_porder:
  assumes "list_all (\<lambda>p. p < k) P"
  shows "length (concat (map (positions P) (sort_key g [0..<k]))) = length P"
proof -
  have d: "distinct (sort_key g [0..<k])" by simp
  have s: "set (sort_key g [0..<k]) = {0..<k}" by simp
  have m: "list_all (\<lambda>p. p \<in> set (sort_key g [0..<k])) P"
    using assms by (simp add: s list_all_iff)
  have "length (concat (map (positions P) (sort_key g [0..<k])))
      = (\<Sum>j\<leftarrow>sort_key g [0..<k]. length (filter (\<lambda>p. p = j) P))"
    by (simp add: length_concat comp_def length_positions)
  also have "\<dots> = length P"
    using d m by (rule sum_count_perm)
  finally show ?thesis .
qed

definition qr_inv :: "nat \<Rightarrow> nat \<Rightarrow> nat \<Rightarrow> qr_state \<Rightarrow> bool" where
  "qr_inv n k w st \<longleftrightarrow>
     shape0 (qr_Q st) = n \<and> shape1 (qr_Q st) = w \<and> shape0 (qr_R st) = w \<and> shape1 (qr_R st) = w
     \<and> length (qr_cost st) = k \<and> list_all (\<lambda>p. p < k) (qr_P st)"

lemma shape_overwrite [simp]: "shape0 (overwrite A B) = shape0 A" "shape1 (overwrite A B) = shape1 A"
  by (simp_all add: overwrite_def)

lemma qr_finish_shapes:
  assumes inv: "qr_inv n k w st"
    and len: "length (qr_P st) = qr_rank st"
    and le: "qr_rank st \<le> w"
    and ro: "\<And>Q R r po. \<exists>res. qr_reorder ext Q R r po = Inr res"
    and oo: "\<And>Q R y. \<exists>res. qr_orient ext Q R y = Inr res"
  shows "\<exists>Q R P lg. qr_finish ext y st = Inr ((Q, R, P), lg)
     \<and> shape0 Q = n \<and> shape1 Q = qr_rank st \<and> shape0 R = qr_rank st \<and> shape1 R = qr_rank st
     \<and> length P = qr_rank st \<and> lg = qr_log st @ [QrReorder, QrOrient]"
proof -
  let ?korder = "sort_key (\<lambda>j. - (qr_cost st ! j)) [0..<length (qr_cost st)]"
  let ?porder = "concat (map (positions (qr_P st)) ?korder)"
  have lp: "length ?porder = qr_rank st"
    using inv len length_porder [of "length (qr_cost st)" "qr_P st"] by (simp add: qr_inv_def)
  obtain res1 where r1: "qr_reorder ext (qr_Q st) (qr_R st) (qr_rank st) ?porder = Inr res1"
    using ro by blast
  obtain res2 where r2: "qr_orient ext (overwrite (qr_Q st) (fst res1)) (overwrite (qr_R st) (snd res1)) y = Inr res2"
    using oo by blast
  have "qr_finish ext y st = Inr ((slice_cols (overwrite (overwrite (qr_Q st) (fst res1)) (fst res2)) 0 (qr_rank st),
        slice_both (overwrite (overwrite (qr_R st) (snd res1)) (snd res2)) (qr_rank st) (qr_rank st),
        map (\<lambda>i. qr_P st ! i) ?porder), qr_log st @ [QrReorder, QrOrient])"
    unfolding qr_finish_def Let_def by (simp add: r1 r2 lift_err_def lp)
  moreover have "shape1 (slice_cols (overwrite (overwrite (qr_Q st) (fst res1)) (fst res2)) 0 (qr_rank st)) = qr_rank st"
    using inv le by (simp add: slice_cols_def qr_inv_def)
  moreover have "shape0 (slice_cols (overwrite (overwrite (qr_Q st) (fst res1)) (fst res2)) 0 (qr_rank st)) = n"
    using inv by (simp add: slice_cols_def qr_inv_def)
  moreover have "shape0 (slice_both (overwrite (overwrite (qr_R st) (snd res1)) (snd res2)) (qr_rank st) (qr_rank st)) = qr_rank st"
       "shape1 (slice_both (overwrite (overwrite (qr_R st) (snd res1)) (snd res2)) (qr_rank st) (qr_rank st)) = qr_rank st"
    using inv le by (simp_all add: slice_both_def qr_inv_def)
  ultimately show ?thesis using lp by simp
qed

lemma bind_err_Inr: "bind_err x g = Inr r \<longleftrightarrow> (\<exists>a. x = Inr a \<and> g a = Inr r)"
  by (cases x) auto

lemma lift_err_Inr: "lift_err lg x g = Inr r \<longleftrightarrow> (\<exists>a. x = Inr a \<and> g a = Inr r)"
  by (cases x) (auto simp add: lift_err_def)

lemma bind_run_Inr: "bind_run x g = Inr r \<longleftrightarrow> (\<exists>a. x = Inr a \<and> g a = Inr r)"
  by (cases x) auto

lemma argmax_from_lt: "best < i \<Longrightarrow> argmax_from best v i xs < i + length xs"
proof (induction xs arbitrary: best v i)
  case Nil
  then show ?case by simp
next
  case (Cons x xs)
  have a: "argmax_from i x (Suc i) xs < Suc i + length xs"
    by (rule Cons.IH) simp
  have b: "argmax_from best v (Suc i) xs < Suc i + length xs"
    by (rule Cons.IH) (use Cons.prems in simp)
  from a b Cons.prems show ?case by simp
qed

lemma np_argmax_lt: "np_argmax xs = Inr idx \<Longrightarrow> idx < length xs"
proof (cases xs)
  case Nil
  assume "np_argmax xs = Inr idx"
  with Nil show ?thesis by simp
next
  case (Cons x xs')
  assume "np_argmax xs = Inr idx"
  with Cons have "idx = argmax_from 0 x 1 xs'" by simp
  with argmax_from_lt [of 0 1 x xs'] Cons show ?thesis by simp
qed

lemma assign_row_length: "assign_row n v = Inr r \<Longrightarrow> length r = n"
  by (auto simp add: assign_row_def split: if_splits)

lemma set_neg_inf_length: "set_neg_inf row act = Inr r \<Longrightarrow> length r = length row"
  by (auto simp add: set_neg_inf_def split: if_splits)

lemma gain_row_length: "gain_row ext Ks y f delta n step Qa QTY st j = Inr r \<Longrightarrow> length r = n"
  unfolding gain_row_def bind_err_Inr
  by (auto dest!: assign_row_length set_neg_inf_length)

lemma gain_rows_length:
  "gain_rows g js = Inr rs \<Longrightarrow> length rs = length js \<and> (\<forall>r\<in>set rs. \<exists>j. g j = Inr r)"
proof (induction js arbitrary: rs)
  case Nil
  then show ?case by simp
next
  case (Cons j js)
  from Cons.prems obtain row rest where
    r: "g j = Inr row" "gain_rows g js = Inr rest" "rs = row # rest"
    by (auto simp add: bind_err_Inr)
  with Cons.IH [of rest] show ?case by auto
qed

lemma compute_gain_shape:
  assumes "compute_gain ext Ks y f delta n step st = Inr gain"
  shows "length (concat gain) = length Ks * n"
proof -
  from assms obtain QTY where
    "gain_rows (gain_row ext Ks y f delta n step (slice_cols (qr_Q st) 0 step) QTY st) [0..<length Ks] = Inr gain"
    by (auto simp add: compute_gain_def Let_def bind_err_Inr)
  from gain_rows_length [OF this] have l: "length gain = length Ks" and r: "\<forall>r\<in>set gain. length r = n"
    by (auto dest: gain_row_length)
  from r have "length (concat gain) = length gain * n"
    by (induction gain) simp_all
  with l show ?thesis by simp
qed

lemma qr_commit_frame:
  assumes "qr_commit ext Ks y f delta n step kern pivot st = Inr (b, st')"
  shows "\<not> b \<and> qr_P st' = qr_P st @ [kern] \<and> qr_rank st' = qr_rank st
    \<and> shape0 (qr_Q st') = shape0 (qr_Q st) \<and> shape1 (qr_Q st') = shape1 (qr_Q st)
    \<and> shape0 (qr_R st') = shape0 (qr_R st) \<and> shape1 (qr_R st') = shape1 (qr_R st)
    \<and> length (qr_cost st') = length (qr_cost st)"
  using assms unfolding qr_commit_def Let_def lift_err_Inr
  by auto

lemma qr_iter_cases:
  assumes "qr_iter ext Ks y f delta n step st = Inr (b, st')"
  shows "(b \<and> st' = st\<lparr>qr_rank := step, qr_log := qr_log st @ [Warn step (qr_rank st)]\<rparr>)
    \<or> (\<not> b \<and> (\<exists>kern<length Ks. qr_P st' = qr_P st @ [kern]) \<and> qr_rank st' = qr_rank st
        \<and> shape0 (qr_Q st') = shape0 (qr_Q st) \<and> shape1 (qr_Q st') = shape1 (qr_Q st)
        \<and> shape0 (qr_R st') = shape0 (qr_R st) \<and> shape1 (qr_R st') = shape1 (qr_R st)
        \<and> length (qr_cost st') = length (qr_cost st))"
proof -
  from assms obtain gain idx where
    g: "compute_gain ext Ks y f delta n step st = Inr gain" and
    a: "np_argmax (concat gain) = Inr idx" and
    r: "(if gain ! (idx div n) ! (idx mod n) = Fin 0
         then Inr (True, st\<lparr>qr_rank := step, qr_log := qr_log st @ [Warn step (qr_rank st)]\<rparr>)
         else if idx mod n \<in> set (qr_Acts st ! (idx div n)) then Inl (AssertionError, qr_log st)
         else qr_commit ext Ks y f delta n step (idx div n) (idx mod n) st) = Inr (b, st')"
    unfolding qr_iter_def Let_def lift_err_Inr by blast
  from np_argmax_lt [OF a] compute_gain_shape [OF g] have "idx < length Ks * n" by simp
  then have k: "idx div n < length Ks"
    by (simp add: less_mult_imp_div_less)
  show ?thesis
  proof (cases "gain ! (idx div n) ! (idx mod n) = Fin 0")
    case True
    with r show ?thesis by auto
  next
    case False
    with r have "qr_commit ext Ks y f delta n step (idx div n) (idx mod n) st = Inr (b, st')"
      by (auto split: if_splits)
    from qr_commit_frame [OF this] k show ?thesis by auto
  qed
qed

lemma qr_iter_zero_gain:
  assumes "compute_gain ext Ks y f delta n step st = Inr gain"
    and "np_argmax (concat gain) = Inr idx"
    and "gain ! (idx div n) ! (idx mod n) = Fin 0"
  shows "qr_iter ext Ks y f delta n step st
     = Inr (True, st\<lparr>qr_rank := step, qr_log := qr_log st @ [Warn step (qr_rank st)]\<rparr>)"
  using assms by (simp add: qr_iter_def lift_err_def)

lemma look_ahead_frame:
  "look_ahead ext n rank delta Ks st = Inr st' \<Longrightarrow>
     qr_Q st' = qr_Q st \<and> qr_R st' = qr_R st \<and> qr_P st' = qr_P st
     \<and> qr_cost st' = qr_cost st \<and> qr_rank st' = qr_rank st"
proof (induction Ks arbitrary: st)
  case Nil
  then show ?case by simp
next
  case (Cons K Ks)
  show ?case
  proof (cases "0 < delta")
    case True
    with Cons.prems obtain res where
      "look_ahead ext n rank delta Ks
         (st\<lparr>qr_Gs := qr_Gs st @ [zeros n (rank + delta)], qr_Acts := qr_Acts st @ [[]],
             qr_Inas := qr_Inas st @ [[0..<n]],
             qr_log := qr_log st @ [Zeros [n, rank + delta]]\<rparr>
          \<lparr>qr_Gs := qr_Gs st @ [overwrite (zeros n (rank + delta)) (fst res)],
           qr_log := qr_log st @ [Zeros [n, rank + delta]] @ [CholeskySteps]\<rparr>) = Inr st'"
      by (auto simp add: Let_def lift_err_Inr)
    from Cons.IH [OF this] show ?thesis by simp
  next
    case False
    with Cons.prems have
      "look_ahead ext n rank delta Ks
         (st\<lparr>qr_Gs := qr_Gs st @ [zeros n (rank + delta)], qr_Acts := qr_Acts st @ [[]],
             qr_Inas := qr_Inas st @ [[0..<n]],
             qr_log := qr_log st @ [Zeros [n, rank + delta]]\<rparr>) = Inr st'"
      by (simp add: Let_def)
    from Cons.IH [OF this] show ?thesis by simp
  qed
qed

lemma qr_inv_init: "qr_inv n k (rank + k * delta) (qr_init n k rank delta)"
  by (simp add: qr_inv_def qr_init_def zeros_def)

lemma qr_loop_prefix:
  assumes "qr_loop ext Ks y f delta n st0 xs = Inr st"
    and "qr_rank st = qr_rank st0"
    and "\<forall>x\<in>set xs. x < qr_rank st0"
    and "qr_inv n (length Ks) w st0"
  shows "qr_inv n (length Ks) w st \<and> length (qr_P st) = length (qr_P st0) + length xs
    \<and> qr_loop ext Ks y f delta n st0 (xs @ ys) = qr_loop ext Ks y f delta n st ys"
  using assms
proof (induction xs arbitrary: st0)
  case Nil
  then show ?case by simp
next
  case (Cons x xs)
  from Cons.prems(1) obtain res where
    it0: "qr_iter ext Ks y f delta n x st0 = Inr res" and
    rest0: "(if fst res then Inr (snd res) else qr_loop ext Ks y f delta n (snd res) xs) = Inr st"
    by (auto simp add: bind_run_Inr)
  obtain b st1 where res: "res = (b, st1)" by (cases res)
  from it0 res have it: "qr_iter ext Ks y f delta n x st0 = Inr (b, st1)" by simp
  from rest0 have rest: "(if b then Inr st1 else qr_loop ext Ks y f delta n st1 xs) = Inr st"
    unfolding res fst_conv snd_conv .
  have nb: "\<not> b"
  proof
    assume b: b
    with qr_iter_cases [OF it] have "qr_rank st1 = x" by auto
    moreover from b rest have "st = st1" by simp
    ultimately have "qr_rank st = x" by simp
    with Cons.prems(2,3) show False by simp
  qed
  with qr_iter_cases [OF it] obtain kern where
    fr: "kern < length Ks" "qr_P st1 = qr_P st0 @ [kern]" "qr_rank st1 = qr_rank st0"
        "shape0 (qr_Q st1) = shape0 (qr_Q st0)" "shape1 (qr_Q st1) = shape1 (qr_Q st0)"
        "shape0 (qr_R st1) = shape0 (qr_R st0)" "shape1 (qr_R st1) = shape1 (qr_R st0)"
        "length (qr_cost st1) = length (qr_cost st0)"
    by auto
  from nb rest have l1: "qr_loop ext Ks y f delta n st1 xs = Inr st" by simp
  have inv1: "qr_inv n (length Ks) w st1"
    using Cons.prems(4) fr by (simp add: qr_inv_def)
  have "qr_inv n (length Ks) w st \<and> length (qr_P st) = length (qr_P st1) + length xs
    \<and> qr_loop ext Ks y f delta n st1 (xs @ ys) = qr_loop ext Ks y f delta n st ys"
    using l1 Cons.prems(2,3) fr(3) inv1 by (intro Cons.IH) simp_all
  then show ?case using it nb fr(2) by simp
qed

text \<open>
  An example run: the kernel \<open>diag(1, 0)\<close> on two samples, no look-ahead (\<open>delta = 0\<close>),
  rank 2 requested. The pivots of this kernel have diagonal 1, where a Cholesky step copies
  the pivot's column and the QR step takes the new column as it is; \<open>ext_demo\<close> does just
  that. The first pass commits pivot 0; in the second the best gain left is 0.
\<close>

definition ext_demo :: externals where
  "ext_demo =
     \<lparr>cholesky_steps = (\<lambda>K G start act ina max_steps order.
        case order of
          Some (p # ps) \<Rightarrow>
            Inr (mk (shape0 G) (shape1 G) (\<lambda>i c. if Some c = start then ent K i p else ent G i c),
                 act @ [p], filter (\<lambda>i. i \<noteq> p) ina)
        | _ \<Rightarrow> Inr (G, act, ina)),
      qr_steps = (\<lambda>G Q R max_steps start qstart.
        Inr (mk (shape0 Q) (shape1 Q) (\<lambda>i c. if c = qstart then ent G i start else ent Q i c),
             mk (shape0 R) (shape1 R) (\<lambda>i c. if i = qstart \<and> c = qstart then 1 else ent R i c))),
      qr_reorder = (\<lambda>Q R r po. Inr (Q, R)),
      qr_orient = (\<lambda>Q R y. Inr (Q, R)),
      safe_divide = (\<lambda>C B. map Fin C)\<rparr>"

definition demo_K :: "real ndarray" where "demo_K = \<lparr>shape0 = 2, shape1 = 2, rows = [[1, 0], [0, 0]]\<rparr>"
definition demo_y :: "real ndarray" where "demo_y = \<lparr>shape0 = 2, shape1 = 1, rows = [[1], [1]]\<rparr>"

definition demo_st0 :: qr_state where
  "demo_st0 =
     \<lparr>qr_Q = \<lparr>shape0 = 2, shape1 = 2, rows = [[0, 0], [0, 0]]\<rparr>,
      qr_R = \<lparr>shape0 = 2, shape1 = 2, rows = [[0, 0], [0, 0]]\<rparr>,
      qr_P = [], qr_corr = [0], qr_cost = [0], qr_ncol = [0],
      qr_Gs = [\<lparr>shape0 = 2, shape1 = 2, rows = [[0, 0], [0, 0]]\<rparr>],
      qr_Acts = [[]], qr_Inas = [[0, 1]], qr_rank = 2,
      qr_log = [Zeros [2, 2], Zeros [2, 2], Zeros [1], Zeros [1], Zeros [1], Zeros [1, 2],
                Zeros [2, 2]]\<rparr>"

definition demo_st1 :: qr_state where
  "demo_st1 =
     \<lparr>qr_Q = \<lparr>shape0 = 2, shape1 = 2, rows = [[1, 0], [0, 0]]\<rparr>,
      qr_R = \<lparr>shape0 = 2, shape1 = 2, rows = [[1, 0], [0, 0]]\<rparr>,
      qr_P = [0], qr_corr = [1], qr_cost = [1], qr_ncol = [1],
      qr_Gs = [\<lparr>shape0 = 2, shape1 = 2, rows = [[1, 0], [0, 0]]\<rparr>],
      qr_Acts = [[0]], qr_Inas = [[1]], qr_rank = 2,
      qr_log = [Zeros [2, 2], Zeros [2, 2], Zeros [1], Zeros [1], Zeros [1], Zeros [1, 2],
                Zeros [2, 2], CholeskySteps, QrSteps, CholeskySteps]\<rparr>"

text \<open>
  The two norms of \<open>mkl_qr\<close> without their square roots, for evaluating a run.
\<close>

definition frobenius_sq :: "real ndarray \<Rightarrow> real" where
  "frobenius_sq A = (\<Sum>i<shape0 A. \<Sum>j<shape1 A. (ent A i j)\<^sup>2)"

lemma frobenius_sq_nonneg: "0 \<le> frobenius_sq A"
  by (simp add: frobenius_sq_def sum_nonneg)

lemma frobenius_pow2: "(frobenius A)\<^sup>2 = frobenius_sq A"
  using frobenius_sq_nonneg [of A] by (simp add: frobenius_def frobenius_sq_def)

lemma frobenius_less: "frobenius A < 1 / 100000 \<longleftrightarrow> frobenius_sq A < 1 / 10000000000"
proof -
  have "sqrt (1 / 10000000000) = 1 / 100000"
    by (rule real_sqrt_unique) (simp_all add: power2_eq_square)
  then have "frobenius A < 1 / 100000 \<longleftrightarrow> sqrt (frobenius_sq A) < sqrt (1 / 10000000000)"
    by (simp only: frobenius_def frobenius_sq_def)
  also have "\<dots> \<longleftrightarrow> frobenius_sq A < 1 / 10000000000"
    by (rule real_sqrt_less_iff)
  finally show ?thesis .
qed

lemma check_qr_code [code]:
  "check_qr G Q R k_num k_inx =
     bind_err (dot Q R) (\<lambda>QR.
     bind_err (take_cols QR k_inx) (\<lambda>S.
     bind_err (broadcast (\<lambda>u v. u - v) (slice_cols G 0 k_num) S) (\<lambda>D.
       if frobenius_sq D < 1 / 10000000000 then Inr () else Inl AssertionError)))"
  by (simp only: check_qr_def frobenius_less)

lemma corr_of_code [code]:
  "corr_of Q k_inx y =
     bind_err (take_cols Q k_inx) (\<lambda>Qk.
     bind_err (dot (T Qk) y) (\<lambda>Qky. Inr (frobenius_sq Qky)))"
  by (simp only: corr_of_def frobenius_pow2)

lemma demo_look_ahead:
  "look_ahead ext_demo (shape0 demo_K) 2 0 [demo_K] (qr_init (shape0 demo_K) (Suc (length ([] :: real ndarray list))) 2 0)
     = Inr demo_st0"
  by code_simp

lemma demo_gain0: "compute_gain ext_demo [demo_K] demo_y (\<lambda>p. 1) 0 (shape0 demo_K) 0 demo_st0 = Inr [[Fin 1, Fin 0]]"
  by code_simp

lemma demo_gain1: "compute_gain ext_demo [demo_K] demo_y (\<lambda>p. 1) 0 (shape0 demo_K) 1 demo_st1 = Inr [[NInf, Fin 0]]"
  by code_simp

lemma demo_argmax0: "np_argmax (concat [[Fin 1, Fin 0]]) = Inr 0"
  by code_simp

lemma demo_argmax1: "np_argmax (concat [[NInf, Fin 0]]) = Inr 1"
  by code_simp

text \<open>
  C5. If the first \<open>s\<close> passes of the loop of \<open>mkl_qr\<close> each commit a pivot (the loop run
  over \<open>range(s)\<close> ends in a state whose \<open>rank\<close> is still the requested one), and in pass
  \<open>s < rank\<close> the gains are computed and their maximal entry is exactly 0, then the call
  does not raise: the warning for step \<open>s\<close> is emitted, and the call returns \<open>Q\<close> of shape
  \<open>(n, s)\<close>, \<open>R\<close> of shape \<open>(s, s)\<close> and \<open>P\<close> of length \<open>s\<close>. The two calls after the loop,
  \<open>qr_reorder\<close> and \<open>qr_orient\<close>, are taken to return.
\<close>

theorem mkl_qr_zero_gain_stops:
  assumes d: "delta \<noteq> 1"
    and la: "look_ahead ext (shape0 K0) rank delta (K0 # Ks)
               (qr_init (shape0 K0) (Suc (length Ks)) rank delta) = Inr st0"
    and run: "qr_loop ext (K0 # Ks) y f delta (shape0 K0) st0 [0..<s] = Inr st"
    and same: "qr_rank st = rank"
    and s: "s < rank"
    and g: "compute_gain ext (K0 # Ks) y f delta (shape0 K0) s st = Inr gain"
    and am: "np_argmax (concat gain) = Inr idx"
    and z: "gain ! (idx div shape0 K0) ! (idx mod shape0 K0) = Fin 0"
    and ro: "\<And>Q R r po. \<exists>res. qr_reorder ext Q R r po = Inr res"
    and oo: "\<And>Q R y. \<exists>res. qr_orient ext Q R y = Inr res"
  shows "\<exists>Q R P lg. mkl_qr ext (K0 # Ks) y rank delta f = Inr ((Q, R, P), lg)
     \<and> shape0 Q = shape0 K0 \<and> shape1 Q = s \<and> shape0 R = s \<and> shape1 R = s \<and> length P = s
     \<and> Warn s rank \<in> set lg"
proof -
  let ?n = "shape0 K0" and ?k = "Suc (length Ks)"
  let ?w = "rank + ?k * delta"
  from look_ahead_frame [OF la] have fr0:
    "qr_Q st0 = qr_Q (qr_init ?n ?k rank delta)" "qr_R st0 = qr_R (qr_init ?n ?k rank delta)"
    "qr_P st0 = []" "qr_cost st0 = qr_cost (qr_init ?n ?k rank delta)" "qr_rank st0 = rank"
    by (simp_all add: qr_init_def)
  have inv0: "qr_inv ?n (length (K0 # Ks)) ?w st0"
    using qr_inv_init [of ?n ?k rank delta] by (simp add: qr_inv_def fr0)
  have steps: "\<forall>x\<in>set [0..<s]. x < qr_rank st0"
    using s fr0(5) by simp
  have up: "[0..<rank] = [0..<s] @ s # [Suc s..<rank]"
    using s by (metis le_add1 less_imp_add_positive upt_add_eq_append upt_conv_Cons zero_less_iff_neq_zero add_0 less_imp_le_nat nat_less_le upt_rec)
  from qr_loop_prefix [OF run _ steps inv0, of "s # [Suc s..<rank]"] same fr0(5)
  have inv: "qr_inv ?n (length (K0 # Ks)) ?w st" and len: "length (qr_P st) = s"
    and cont: "qr_loop ext (K0 # Ks) y f delta ?n st0 [0..<rank]
       = qr_loop ext (K0 # Ks) y f delta ?n st (s # [Suc s..<rank])"
    by (simp_all add: fr0(3) up)
  let ?st' = "st\<lparr>qr_rank := s, qr_log := qr_log st @ [Warn s (qr_rank st)]\<rparr>"
  have brk: "qr_loop ext (K0 # Ks) y f delta ?n st (s # [Suc s..<rank]) = Inr ?st'"
    using qr_iter_zero_gain [OF g am z] by simp
  have inv': "qr_inv ?n (length (K0 # Ks)) ?w ?st'"
    using inv by (simp add: qr_inv_def)
  have "\<exists>Q R P lg. qr_finish ext y ?st' = Inr ((Q, R, P), lg)
     \<and> shape0 Q = ?n \<and> shape1 Q = qr_rank ?st' \<and> shape0 R = qr_rank ?st' \<and> shape1 R = qr_rank ?st'
     \<and> length P = qr_rank ?st' \<and> lg = qr_log ?st' @ [QrReorder, QrOrient]"
    using inv' _ _ ro oo
  proof (rule qr_finish_shapes)
    show "length (qr_P ?st') = qr_rank ?st'" using len by simp
    show "qr_rank ?st' \<le> ?w" using s by simp
  qed
  then obtain Q R P lg where
    fin: "qr_finish ext y ?st' = Inr ((Q, R, P), lg)" "shape0 Q = ?n" "shape1 Q = s"
      "shape0 R = s" "shape1 R = s" "length P = s" "lg = qr_log ?st' @ [QrReorder, QrOrient]"
    by auto
  have "mkl_qr ext (K0 # Ks) y rank delta f
      = bind_run (look_ahead ext ?n rank delta (K0 # Ks) (qr_init ?n ?k rank delta))
          (\<lambda>st1. bind_run (qr_loop ext (K0 # Ks) y f delta ?n st1 [0..<rank]) (qr_finish ext y))"
    using d by (simp add: mkl_qr_def Let_def del: look_ahead.simps)
  also have "\<dots> = Inr ((Q, R, P), lg)"
    by (simp only: la bind_run.simps cont brk fin(1))
  finally have "mkl_qr ext (K0 # Ks) y rank delta f = Inr ((Q, R, P), lg)" .
  moreover have "Warn s rank \<in> set lg"
    using fin(7) same by simp
  ultimately show ?thesis using fin by blast
qed

theorem mkl_qr_zero_gain_stops_witness:
  "compute_gain ext_demo [demo_K] demo_y (\<lambda>p. 1) 0 (shape0 demo_K) 1 demo_st1 = Inr [[NInf, Fin 0]]
   \<and> np_argmax (concat [[NInf, Fin 0]]) = Inr 1
   \<and> (\<exists>Q R P lg. mkl_qr ext_demo [demo_K] demo_y 2 0 (\<lambda>p. 1) = Inr ((Q, R, P), lg)
         \<and> shape0 Q = 2 \<and> shape1 Q = 1 \<and> shape0 R = 1 \<and> shape1 R = 1 \<and> length P = 1
         \<and> Warn 1 2 \<in> set lg)"
proof -
  have n: "shape0 demo_K = 2" by (simp add: demo_K_def)
  have d: "(0::nat) \<noteq> 1" by simp
  have run: "qr_loop ext_demo [demo_K] demo_y (\<lambda>p. 1) 0 (shape0 demo_K) demo_st0 [0..<1] = Inr demo_st1"
    by code_simp
  have same: "qr_rank demo_st1 = 2" by (simp add: demo_st1_def)
  have s: "(1::nat) < 2" by simp
  have z: "[[NInf, Fin 0]] ! (1 div shape0 demo_K) ! (1 mod shape0 demo_K) = Fin 0"
    by (simp add: n)
  have ro: "\<exists>res. qr_reorder ext_demo Q R r po = Inr res" for Q R r po
    by (simp add: ext_demo_def)
  have oo: "\<exists>res. qr_orient ext_demo Q R y = Inr res" for Q R y
    by (simp add: ext_demo_def)
  from mkl_qr_zero_gain_stops [OF d demo_look_ahead run same s demo_gain1 demo_argmax1 z ro oo]
  show ?thesis using demo_gain1 demo_argmax1 by (simp add: n)
qed

end
